theory Spec2Isabelle
  imports Complex_Main "HOL-Library.AList" "HOL-Library.DAList" "HOL-Library.Multiset"
    "HOL-Library.Char_ord" "HOL-Library.List_Lexorder"
begin

section \<open>Values shared by the services\<close>

text \<open>
  A thrown JavaScript error or a rejected promise is a value of type \<open>error\<close>; a function
  that can throw returns \<open>error + 'a\<close> with \<open>Inl\<close> for the error.
  \<open>Error\<close> is a plain \<^verbatim>\<open>Error\<close> with its message, \<open>RangeError\<close> the one date-fns raises on
  an invalid date, \<open>HttpException\<close> the NestJS exception with reason phrase and status code.
\<close>

datatype error = Error string | RangeError string | HttpException string nat

text \<open>
  A JavaScript \<^verbatim>\<open>Date\<close> is its time value, or the invalid date (time value NaN).
\<close>

datatype Date = Date int | Invalid_Date

definition isValid :: "Date \<Rightarrow> bool" where
  "isValid d = (d \<noteq> Invalid_Date)"

type_synonym DataSource = string

section \<open>GhostfolioController\<close>

















section \<open>DataProviderService: data and collaborators\<close>

record AssetProfileIdentifier =
  dataSource :: DataSource
  symbol :: string

text \<open>
  The runtime value of a \<^verbatim>\<open>marketPrice\<close>: a finite number, one of the three special numbers,
  or no number at all (\<^verbatim>\<open>undefined\<close>, \<^verbatim>\<open>null\<close>). Finite numbers are exact rationals: the
  rounding of a product to the nearest double in \<^verbatim>\<open>Big.toNumber()\<close> is not part of the model.
\<close>

datatype price = Num rat | NaN | PosInfinity | NegInfinity | NoNumber

text \<open>lodash \<^verbatim>\<open>isNumber\<close> (\<^verbatim>\<open>typeof value == 'number'\<close>) and the comparison \<^verbatim>\<open>value > 0\<close>.\<close>

fun isNumber :: "price \<Rightarrow> bool" where
  "isNumber NoNumber = False"
| "isNumber p = True"

fun greaterThanZero :: "price \<Rightarrow> bool" where
  "greaterThanZero (Num x) = (x > 0)"
| "greaterThanZero PosInfinity = True"
| "greaterThanZero p = False"

text \<open>\<^verbatim>\<open>new Big(value)\<close> throws unless the value is a finite number.\<close>

fun Big :: "price \<Rightarrow> error + rat" where
  "Big (Num x) = Inr x"
| "Big p = Inl (Error ''[big.js] Invalid number'')"

text \<open>\<^verbatim>\<open>new Big(a).mul(b).toNumber()\<close>\<close>

definition Big_mul :: "price \<Rightarrow> price \<Rightarrow> error + price" where
  "Big_mul a b =
     (case Big a of
        Inl e \<Rightarrow> Inl e
      | Inr x \<Rightarrow> (case Big b of Inl e \<Rightarrow> Inl e | Inr y \<Rightarrow> Inr (Num (x * y))))"

record IDataProviderResponse =
  currency :: string
  quote_dataSource :: DataSource
  marketPrice :: price
  marketState :: string

record DerivedCurrency =
  derived_currency :: string
  factor :: rat
  rootCurrency :: string

record DataProviderInfo =
  info_isPremium :: bool
  info_dataSource :: "string option"
  info_name :: "string option"
  info_url :: "string option"

record LookupItem =
  assetClass :: string
  assetSubClass :: string
  lookup_currency :: "string option"
  dataProviderInfo :: DataProviderInfo
  lookup_dataSource :: DataSource
  lookup_name :: string
  lookup_symbol :: string

text \<open>A row of the table \<^verbatim>\<open>MarketData\<close> (the columns the service reads).\<close>

record MarketData =
  row_dataSource :: DataSource
  row_date :: Date
  row_marketPrice :: price
  row_symbol :: string

text \<open>An element of the \<^verbatim>\<open>data\<close> passed to \<^verbatim>\<open>MarketDataService.updateMany\<close>.\<close>

record MarketDataUpdate =
  update_symbol :: string
  update_dataSource :: DataSource
  update_date :: Date
  update_marketPrice :: price
  update_state :: string

record UserWithSettings =
  user_ident :: string
  createdAt :: Date
  subscription_type :: string
  isExperimentalFeatures :: bool

text \<open>
  A pluggable upstream provider (\<^verbatim>\<open>DataProviderInterface\<close>). An asynchronous method gives the
  outcome of its promise: \<open>Inl\<close> when it rejects. An object returned by a provider has
  distinct keys, hence the type of association lists with distinct keys; its entries are
  read in the order of the list. \<open>getMaxNumberOfSymbolsPerRequest\<close> is \<open>None\<close> when the
  provider does not define the method; \<open>isPremium\<close> is the truth value of
  \<^verbatim>\<open>getDataProviderInfo().isPremium\<close>. The first argument of \<open>provider_getQuotes\<close> and of
  \<open>provider_getHistorical\<close> is the request timeout. \<open>provider_getHistorical\<close> resolves to
  \<^verbatim>\<open>undefined\<close> (\<open>None\<close>) or to an object from symbols to series; \<open>provider_search\<close> to the
  \<^verbatim>\<open>items\<close> of its response, which may be missing.
\<close>

record DataProviderInterface =
  getName :: string
  isPremium :: bool
  getMaxNumberOfSymbolsPerRequest :: "int option"
  canHandle :: "string \<Rightarrow> bool"
  provider_getQuotes ::
    "nat option \<Rightarrow> string list \<Rightarrow> error + (string, IDataProviderResponse) alist"
  provider_getHistorical ::
    "nat \<Rightarrow> string \<Rightarrow> Date \<Rightarrow> Date \<Rightarrow> error + (string \<times> (string, price) alist) list option"
  provider_search :: "bool \<Rightarrow> string \<Rightarrow> string \<Rightarrow> error + LookupItem list option"

text \<open>
  Everything the service is constructed with or imports and that is not part of the files
  at hand: the constants and helpers of the common library (\<^verbatim>\<open>DEFAULT_CURRENCY\<close>,
  \<^verbatim>\<open>DERIVED_CURRENCIES\<close>, \<^verbatim>\<open>isCurrency\<close>, \<^verbatim>\<open>isDerivedCurrency\<close>, \<^verbatim>\<open>getCurrencyFromSymbol\<close>,
  \<^verbatim>\<open>getStartOfUtcDate\<close>, \<^verbatim>\<open>hasRole\<close>), the values of the configuration and property services,
  the registered providers, the Redis cache as it is when the call starts (\<open>redis_get\<close>,
  with \<^verbatim>\<open>getQuoteKey\<close>), JSON parsing of a cached quote (\<open>None\<close> when \<^verbatim>\<open>JSON.parse\<close> throws) and
  serialisation, the market-data store, the database, the date-fns functions
  \<^verbatim>\<open>format(_, DATE_FORMAT)\<close> on a valid time value and \<^verbatim>\<open>eachDayOfInterval\<close>, and the runtime's
  \<^verbatim>\<open>toLowerCase\<close> and \<^verbatim>\<open>localeCompare\<close>.
\<close>

record Env =
  DEFAULT_CURRENCY :: string
  DERIVED_CURRENCIES :: "DerivedCurrency list"
  isCurrency :: "string \<Rightarrow> bool"
  isDerivedCurrency :: "string \<Rightarrow> bool"
  getCurrencyFromSymbol :: "string \<Rightarrow> string"
  getStartOfUtcDate :: "Date \<Rightarrow> Date"
  hasRole :: "UserWithSettings \<Rightarrow> string \<Rightarrow> bool"
  ENABLE_FEATURE_SUBSCRIPTION :: bool
  CACHE_QUOTES_TTL :: nat
  DATA_SOURCE_EXCHANGE_RATES :: DataSource
  DATA_SOURCES :: "DataSource list"
  DATA_SOURCES_LEGACY :: "DataSource list option"
  dataProviderMapping :: "string \<Rightarrow> string option"
  API_KEY_GHOSTFOLIO :: "string option"
  dataProviderInterfaces :: "DataProviderInterface list"
  getQuoteKey :: "DataSource \<Rightarrow> string \<Rightarrow> string"
  redis_get :: "string \<Rightarrow> string option"
  JSON_parse :: "string \<Rightarrow> IDataProviderResponse option"
  JSON_stringify :: "IDataProviderResponse \<Rightarrow> string"
  updateMany :: "MarketDataUpdate list \<Rightarrow> error + unit"
  queryRawUnsafe :: "string \<Rightarrow> error + MarketData list"
  format :: "int \<Rightarrow> string"
  eachDayOfInterval :: "Date \<Rightarrow> Date \<Rightarrow> error + Date list"
  lowerCase :: "string \<Rightarrow> string"
  localeCompare :: "string \<Rightarrow> string \<Rightarrow> int"

text \<open>\<^verbatim>\<open>format(date, DATE_FORMAT)\<close> throws a RangeError on an invalid date.\<close>

fun formatDate :: "Env \<Rightarrow> Date \<Rightarrow> error + string" where
  "formatDate env (Date t) = Inr (format env t)"
| "formatDate env Invalid_Date = Inl (RangeError ''Invalid time value'')"

text \<open>
  A JavaScript object built by assignments is an association list: \<^verbatim>\<open>o[k] = v\<close> replaces the
  value of an existing key in place and appends a new key at the end, which is
  \<^const>\<open>AList.update\<close>; \<^verbatim>\<open>o[k]\<close> is \<^const>\<open>map_of\<close>, \<^verbatim>\<open>Object.keys(o)\<close> the list of first
  components. (The runtime lists keys that are canonical array indices first; symbols and
  date strings are taken not to be such keys.)
\<close>

definition Object_keys :: "('k \<times> 'v) list \<Rightarrow> 'k list" where
  "Object_keys obj = map fst obj"

definition Object_entries :: "('k, 'v) alist \<Rightarrow> ('k \<times> 'v) list" where
  "Object_entries obj = DAList.impl_of obj"

subsection \<open>getDataProvider\<close>

text \<open>
  The loop of \<^verbatim>\<open>getDataProvider\<close>: for each registered provider in turn, if the data-source
  mapping has a (non-empty) entry for its name and a provider of the mapped name is
  registered, that one is returned; otherwise the provider itself if it has the requested
  name. When the loop ends the method throws.
\<close>

fun findDataProvider ::
  "Env \<Rightarrow> DataProviderInterface list \<Rightarrow> DataSource \<Rightarrow> error + DataProviderInterface" where
  "findDataProvider env [] providerName = Inl (Error ''No data provider has been found.'')"
| "findDataProvider env (dataProviderInterface # rest) providerName =
     (case (case dataProviderMapping env (getName dataProviderInterface) of
              None \<Rightarrow> None
            | Some mapped \<Rightarrow>
                if mapped = [] then None
                else find (\<lambda>currentDataProviderInterface.
                             getName currentDataProviderInterface = mapped)
                       (dataProviderInterfaces env)) of
        Some mappedDataProviderInterface \<Rightarrow> Inr mappedDataProviderInterface
      | None \<Rightarrow>
          if getName dataProviderInterface = providerName then Inr dataProviderInterface
          else findDataProvider env rest providerName)"

definition getDataProvider :: "Env \<Rightarrow> DataSource \<Rightarrow> error + DataProviderInterface" where
  "getDataProvider env providerName =
     findDataProvider env (dataProviderInterfaces env) providerName"

definition getDataSourceForExchangeRates :: "Env \<Rightarrow> DataSource" where
  "getDataSourceForExchangeRates env = DATA_SOURCE_EXCHANGE_RATES env"

subsection \<open>getHistorical\<close>

text \<open>\<^verbatim>\<open>Array.prototype.join\<close> on strings.\<close>

fun join :: "string \<Rightarrow> string list \<Rightarrow> string" where
  "join sep [] = []"
| "join sep [x] = x"
| "join sep (x # y # ys) = x @ sep @ join sep (y # ys)"

definition quoted :: "string \<Rightarrow> string" where
  "quoted s = CHR 0x27 # s @ [CHR 0x27]"

definition granularityQuery :: "string \<Rightarrow> string" where
  "granularityQuery aGranularity =
     (if aGranularity = ''month''
      then ''AND (date_part('' @ quoted ''day'' @ '', date) = 1 OR date >= TIMESTAMP ''
             @ quoted ''yesterday'' @ '')''
      else [])"

text \<open>
  \<^verbatim>\<open>from && to\<close> holds for any two \<^verbatim>\<open>Date\<close> objects, so the range clause is always built once
  the validity check has passed; \<^verbatim>\<open>format\<close> could throw here, before the \<^verbatim>\<open>try\<close>.
\<close>

definition rangeQuery :: "Env \<Rightarrow> Date \<Rightarrow> Date \<Rightarrow> error + string" where
  "rangeQuery env from to =
     (case formatDate env from of
        Inl e \<Rightarrow> Inl e
      | Inr f \<Rightarrow>
          (case formatDate env to of
             Inl e \<Rightarrow> Inl e
           | Inr t \<Rightarrow> Inr (''AND date >= '' @ quoted f @ '' AND date <= '' @ quoted t)))"

text \<open>The text of the raw query (runs of white space written as one blank).\<close>

definition queryRaw :: "AssetProfileIdentifier list \<Rightarrow> string \<Rightarrow> string \<Rightarrow> string" where
  "queryRaw aItems granularityQ rangeQ =
     ''SELECT * FROM '' @ [CHR 0x22] @ ''MarketData'' @ [CHR 0x22] @
     '' WHERE '' @ [CHR 0x22] @ ''dataSource'' @ [CHR 0x22] @
     '' IN ('' @ quoted (join (CHR 0x27 # '','' @ [CHR 0x27]) (map dataSource aItems)) @ '')'' @
     '' AND '' @ [CHR 0x22] @ ''symbol'' @ [CHR 0x22] @
     '' IN ('' @ quoted (join (CHR 0x27 # '','' @ [CHR 0x27]) (map symbol aItems)) @ '') '' @
     granularityQ @ '' '' @ rangeQ @ '' ORDER BY date;''"

text \<open>
  The callback of \<^verbatim>\<open>marketDataByGranularity.reduce\<close>:
  \<^verbatim>\<open>r[symbol] = { ...(r[symbol] || {}), [format(new Date(date), DATE_FORMAT)]: { marketPrice } }\<close>
\<close>

fun reduceMarketData ::
  "Env \<Rightarrow> MarketData list \<Rightarrow> (string \<times> (string \<times> price) list) list \<Rightarrow>
     error + (string \<times> (string \<times> price) list) list" where
  "reduceMarketData env [] r = Inr r"
| "reduceMarketData env (marketData # rest) r =
     (case formatDate env (row_date marketData) of
        Inl e \<Rightarrow> Inl e
      | Inr d \<Rightarrow>
          reduceMarketData env rest
            (AList.update (row_symbol marketData)
               (AList.update d (row_marketPrice marketData)
                  (case map_of r (row_symbol marketData) of None \<Rightarrow> [] | Some series \<Rightarrow> series))
               r))"

text \<open>
  What a call of \<^verbatim>\<open>getHistorical\<close> does: its outcome, the raw queries sent to the database
  and the errors passed to \<^verbatim>\<open>Logger.error\<close>.
\<close>

record HistoricalRun =
  hist_outcome :: "error + (string \<times> (string \<times> price) list) list"
  hist_queries :: "string list"
  hist_logged :: "error list"

text \<open>
  \<open>aGranularity\<close> is \<open>None\<close> when the argument is left out (default \<^verbatim>\<open>'month'\<close>). The body of
  the \<^verbatim>\<open>try\<close> assigns \<^verbatim>\<open>response\<close> only when the query and the whole reduction have succeeded;
  \<^verbatim>\<open>finally { return response; }\<close> replaces any error by the response held at that point.
\<close>

definition getHistorical ::
  "Env \<Rightarrow> AssetProfileIdentifier list \<Rightarrow> string option \<Rightarrow> Date \<Rightarrow> Date \<Rightarrow> HistoricalRun" where
  "getHistorical env aItems aGranularity from to =
     (if aItems = [] \<or> \<not> isValid from \<or> \<not> isValid to
      then \<lparr>hist_outcome = Inr [], hist_queries = [], hist_logged = []\<rparr>
      else
        (case rangeQuery env from to of
           Inl e \<Rightarrow> \<lparr>hist_outcome = Inl e, hist_queries = [], hist_logged = []\<rparr>
         | Inr rangeQ \<Rightarrow>
             (let q = queryRaw aItems
                        (granularityQuery (case aGranularity of None \<Rightarrow> ''month'' | Some g \<Rightarrow> g))
                        rangeQ
              in (case queryRawUnsafe env q of
                    Inl error \<Rightarrow> \<lparr>hist_outcome = Inr [], hist_queries = [q], hist_logged = [error]\<rparr>
                  | Inr marketDataByGranularity \<Rightarrow>
                      (case reduceMarketData env marketDataByGranularity [] of
                         Inl error \<Rightarrow> \<lparr>hist_outcome = Inr [], hist_queries = [q], hist_logged = [error]\<rparr>
                       | Inr response \<Rightarrow>
                           \<lparr>hist_outcome = Inr response, hist_queries = [q], hist_logged = []\<rparr>)))))"

subsection \<open>getQuotes\<close>

text \<open>
  What a call of \<^verbatim>\<open>getQuotes\<close> that returns has done: the response it returns, the requests
  it sent to upstream providers (in the order they were sent), its calls of
  \<^verbatim>\<open>redisCacheService.set\<close> (key, value, time to live) and the \<^verbatim>\<open>data\<close> of its calls of
  \<^verbatim>\<open>marketDataService.updateMany\<close>.
\<close>

record QuoteRequest =
  request_dataSource :: DataSource
  request_provider :: DataProviderInterface
  symbolsChunk :: "string list"

record QuotesRun =
  responseOf :: "(string \<times> IDataProviderResponse) list"
  upstreamRequests :: "QuoteRequest list"
  cacheWrites :: "(string \<times> string \<times> nat) list"
  marketDataUpdates :: "MarketDataUpdate list list"

text \<open>The response before the cache is read: the fixed quote of \<^verbatim>\<open>${DEFAULT_CURRENCY}USX\<close>.\<close>

definition initialResponse ::
  "Env \<Rightarrow> AssetProfileIdentifier list \<Rightarrow> (string \<times> IDataProviderResponse) list" where
  "initialResponse env items =
     (if list_ex (\<lambda>item. symbol item = DEFAULT_CURRENCY env @ ''USX'') items
      then AList.update (DEFAULT_CURRENCY env @ ''USX'')
             \<lparr>currency = ''USX'', quote_dataSource = getDataSourceForExchangeRates env,
              marketPrice = Num 100, marketState = ''open''\<rparr> []
      else [])"

text \<open>
  The quote the cache phase takes for an item: the cache has a non-empty string under the
  item's quote key and the string parses.
\<close>

definition cachedQuote :: "Env \<Rightarrow> AssetProfileIdentifier \<Rightarrow> IDataProviderResponse option" where
  "cachedQuote env item =
     (case redis_get env (getQuoteKey env (dataSource item) (symbol item)) of
        None \<Rightarrow> None
      | Some quoteString \<Rightarrow> if quoteString = [] then None else JSON_parse env quoteString)"

text \<open>The loop \<^verbatim>\<open>for (const { dataSource, symbol } of items)\<close> over the cache.\<close>

fun getItemsFromCache ::
  "Env \<Rightarrow> bool \<Rightarrow> AssetProfileIdentifier list \<Rightarrow>
     (string \<times> IDataProviderResponse) list \<Rightarrow> AssetProfileIdentifier list \<Rightarrow>
     (string \<times> IDataProviderResponse) list \<times> AssetProfileIdentifier list" where
  "getItemsFromCache env useCache [] response itemsToFetch = (response, itemsToFetch)"
| "getItemsFromCache env useCache (item # items) response itemsToFetch =
     (case (if useCache then cachedQuote env item else None) of
        Some cachedDataProviderResponse \<Rightarrow>
          getItemsFromCache env useCache items
            (AList.update (symbol item) cachedDataProviderResponse response) itemsToFetch
      | None \<Rightarrow>
          getItemsFromCache env useCache items response
            (itemsToFetch @ [\<lparr>dataSource = dataSource item, symbol = symbol item\<rparr>]))"

text \<open>lodash \<^verbatim>\<open>groupBy\<close> by data source: groups in the order of their first item.\<close>

fun groupBy_loop ::
  "AssetProfileIdentifier list \<Rightarrow> (DataSource \<times> AssetProfileIdentifier list) list \<Rightarrow>
     (DataSource \<times> AssetProfileIdentifier list) list" where
  "groupBy_loop [] result = result"
| "groupBy_loop (item # items) result =
     groupBy_loop items
       (case map_of result (dataSource item) of
          None \<Rightarrow> AList.update (dataSource item) [item] result
        | Some items_of_key \<Rightarrow> AList.update (dataSource item) (items_of_key @ [item]) result)"

definition groupByDataSource ::
  "AssetProfileIdentifier list \<Rightarrow> (DataSource \<times> AssetProfileIdentifier list) list" where
  "groupByDataSource items = groupBy_loop items []"

text \<open>The predicate of the \<^verbatim>\<open>filter\<close> on the identifiers of a group.\<close>

definition keepSymbol ::
  "Env \<Rightarrow> DataProviderInterface \<Rightarrow> UserWithSettings option \<Rightarrow> string \<Rightarrow> bool" where
  "keepSymbol env dataProvider user symb =
     (if isCurrency env (getCurrencyFromSymbol env symb)
      then \<not> isDerivedCurrency env (getCurrencyFromSymbol env symb)
      else if isPremium dataProvider \<and> ENABLE_FEATURE_SUBSCRIPTION env \<and>
              (case user of None \<Rightarrow> False | Some u \<Rightarrow> subscription_type u = ''Basic'')
      then False
      else True)"

definition symbolsOf ::
  "Env \<Rightarrow> DataProviderInterface \<Rightarrow> UserWithSettings option \<Rightarrow> AssetProfileIdentifier list \<Rightarrow>
     string list" where
  "symbolsOf env dataProvider user assetProfileIdentifiers =
     map symbol (filter (\<lambda>item. keepSymbol env dataProvider user (symbol item))
                   assetProfileIdentifiers)"

definition MAX_SAFE_INTEGER :: int where
  "MAX_SAFE_INTEGER = 9007199254740991"

definition maximumNumberOfSymbolsPerRequest :: "DataProviderInterface \<Rightarrow> int" where
  "maximumNumberOfSymbolsPerRequest dataProvider =
     (case getMaxNumberOfSymbolsPerRequest dataProvider of
        None \<Rightarrow> MAX_SAFE_INTEGER
      | Some n \<Rightarrow> n)"

text \<open>\<^verbatim>\<open>Array.prototype.slice(start, end)\<close>, with its treatment of negative arguments.\<close>

definition slice :: "int \<Rightarrow> int \<Rightarrow> 'a list \<Rightarrow> 'a list" where
  "slice start stop xs =
     (let len = int (length xs);
          k = (if start < 0 then max (len + start) 0 else min start len);
          final = (if stop < 0 then max (len + stop) 0 else min stop len)
      in take (nat (final - k)) (drop (nat k) xs))"

text \<open>
  The loop \<^verbatim>\<open>for (let i = 0; i < symbols.length; i += maximumNumberOfSymbolsPerRequest)\<close>,
  collecting the chunks it requests. With a maximum that is not positive the loop does not
  end when there is a symbol: the value is then \<open>None\<close>.
\<close>

partial_function (option) chunkLoop ::
  "int \<Rightarrow> int \<Rightarrow> string list \<Rightarrow> string list list \<Rightarrow> string list list option" where
  "chunkLoop i n symbols chunks =
     (if i < int (length symbols)
      then chunkLoop (i + n) n symbols (chunks @ [slice i (i + n) symbols])
      else Some chunks)"

declare chunkLoop.simps [code]

text \<open>
  The loop over the groups: the provider of the group's data source is looked up (which may
  throw), then one request per chunk is sent. \<open>None\<close>: a chunk loop does not end.
\<close>

fun requestsOfGroups ::
  "Env \<Rightarrow> UserWithSettings option \<Rightarrow> (DataSource \<times> AssetProfileIdentifier list) list \<Rightarrow>
     (error + QuoteRequest list) option" where
  "requestsOfGroups env user [] = Some (Inr [])"
| "requestsOfGroups env user ((ds, assetProfileIdentifiers) # groups) =
     (case getDataProvider env ds of
        Inl e \<Rightarrow> Some (Inl e)
      | Inr dataProvider \<Rightarrow>
          (case chunkLoop 0 (maximumNumberOfSymbolsPerRequest dataProvider)
                  (symbolsOf env dataProvider user assetProfileIdentifiers) [] of
             None \<Rightarrow> None
           | Some chunks \<Rightarrow>
               (case requestsOfGroups env user groups of
                  None \<Rightarrow> None
                | Some (Inl e) \<Rightarrow> Some (Inl e)
                | Some (Inr requests) \<Rightarrow>
                    Some (Inr (map (\<lambda>symbolsChunk.
                                      \<lparr>request_dataSource = ds, request_provider = dataProvider,
                                       symbolsChunk = symbolsChunk\<rparr>) chunks
                               @ requests)))))"

text \<open>
  The symbols whose entries a provider result is not merged for:
  \<^verbatim>\<open>[...DERIVED_CURRENCIES.map(({ currency }) => `${DEFAULT_CURRENCY}${currency}`), `${DEFAULT_CURRENCY}USX`]\<close>
\<close>

definition skippedSymbols :: "Env \<Rightarrow> string list" where
  "skippedSymbols env =
     map (\<lambda>dc. DEFAULT_CURRENCY env @ derived_currency dc) (DERIVED_CURRENCIES env)
     @ [DEFAULT_CURRENCY env @ ''USX'']"

text \<open>
  The inner loop over \<^verbatim>\<open>DERIVED_CURRENCIES\<close> for an entry \<open>(symb, dataProviderResponse)\<close> of a
  provider result: for each derived currency whose root pair is \<open>symb\<close>, the derived quote is
  stored in the response and written to the cache. \<^verbatim>\<open>new Big(..)\<close> may throw.
\<close>

fun addDerivedCurrencies ::
  "Env \<Rightarrow> DataSource \<Rightarrow> (string, IDataProviderResponse) alist \<Rightarrow> string \<Rightarrow>
     IDataProviderResponse \<Rightarrow> DerivedCurrency list \<Rightarrow> QuotesRun \<Rightarrow> error + QuotesRun" where
  "addDerivedCurrencies env ds result symb dataProviderResponse [] run = Inr run"
| "addDerivedCurrencies env ds result symb dataProviderResponse (dc # dcs) run =
     (if symb = DEFAULT_CURRENCY env @ rootCurrency dc
      then
        (case DAList.lookup result (DEFAULT_CURRENCY env @ rootCurrency dc) of
           None \<Rightarrow> Inl (Error ''TypeError: Cannot read properties of undefined'')
         | Some rootQuote \<Rightarrow>
             (case Big_mul (marketPrice rootQuote) (Num (factor dc)) of
                Inl e \<Rightarrow> Inl e
              | Inr p \<Rightarrow>
                  (let derived = dataProviderResponse
                         \<lparr>currency := derived_currency dc, marketPrice := p,
                          marketState := ''open''\<rparr>
                   in addDerivedCurrencies env ds result symb dataProviderResponse dcs
                        (run\<lparr>responseOf :=
                               AList.update (DEFAULT_CURRENCY env @ derived_currency dc) derived
                                 (responseOf run),
                             cacheWrites :=
                               cacheWrites run @
                               [(getQuoteKey env ds (DEFAULT_CURRENCY env @ derived_currency dc),
                                 JSON_stringify env derived, CACHE_QUOTES_TTL env)]\<rparr>))))
      else addDerivedCurrencies env ds result symb dataProviderResponse dcs run)"

text \<open>The loop over \<^verbatim>\<open>Object.entries(result)\<close> in the callback of a request.\<close>

fun mergeEntries ::
  "Env \<Rightarrow> DataSource \<Rightarrow> (string, IDataProviderResponse) alist \<Rightarrow>
     (string \<times> IDataProviderResponse) list \<Rightarrow> QuotesRun \<Rightarrow> error + QuotesRun" where
  "mergeEntries env ds result [] run = Inr run"
| "mergeEntries env ds result ((symb, dataProviderResponse) # entries) run =
     (if symb \<in> set (skippedSymbols env)
      then mergeEntries env ds result entries run
      else
        (case addDerivedCurrencies env ds result symb dataProviderResponse (DERIVED_CURRENCIES env)
                (run\<lparr>responseOf := AList.update symb dataProviderResponse (responseOf run),
                     cacheWrites :=
                       cacheWrites run @
                       [(getQuoteKey env ds symb, JSON_stringify env dataProviderResponse,
                         CACHE_QUOTES_TTL env)]\<rparr>) of
           Inl e \<Rightarrow> Inl e
         | Inr run' \<Rightarrow> mergeEntries env ds result entries run'))"

text \<open>
  The \<^verbatim>\<open>data\<close> for \<^verbatim>\<open>updateMany\<close>: the keys of the response, filtered and mapped. \<open>now\<close> is the
  value of \<^verbatim>\<open>new Date()\<close> in the callback.
\<close>

definition intradayData ::
  "Env \<Rightarrow> Date \<Rightarrow> (string \<times> IDataProviderResponse) list \<Rightarrow> MarketDataUpdate list" where
  "intradayData env now response =
     List.map_filter
       (\<lambda>symb. case map_of response symb of
                 None \<Rightarrow> None
               | Some q \<Rightarrow>
                   if isNumber (marketPrice q) \<and> greaterThanZero (marketPrice q) \<and>
                      marketState q = ''open''
                   then Some \<lparr>update_symbol = symb, update_dataSource = quote_dataSource q,
                              update_date = getStartOfUtcDate env now,
                              update_marketPrice = marketPrice q, update_state = ''INTRADAY''\<rparr>
                   else None)
       (Object_keys response)"

text \<open>
  The callback \<^verbatim>\<open>promise.then(async (result) => { ... })\<close> of the request for a chunk: the
  entries are merged, then \<^verbatim>\<open>updateMany\<close> is called inside \<^verbatim>\<open>try { ... } catch {}\<close>, so that its
  failure changes nothing.
\<close>

definition onFulfilled ::
  "Env \<Rightarrow> DataSource \<Rightarrow> Date \<Rightarrow> (string, IDataProviderResponse) alist \<Rightarrow> QuotesRun \<Rightarrow>
     error + QuotesRun" where
  "onFulfilled env ds now result run =
     (case mergeEntries env ds result (Object_entries result) run of
        Inl e \<Rightarrow> Inl e
      | Inr run' \<Rightarrow>
          (let data = intradayData env now (responseOf run');
               run'' = run'\<lparr>marketDataUpdates := marketDataUpdates run' @ [data]\<rparr>
           in (case updateMany env data of
                 Inl e \<Rightarrow> Inr run''
               | Inr u \<Rightarrow> Inr run'')))"

text \<open>
  The requests are sent in the order of the loops; their promises are fulfilled or rejected
  in an order the service does not control. \<open>resolvedAt i\<close> is the instant (time value) at
  which the promise of the \<open>i\<close>-th request settles and, when it is fulfilled, its callback
  runs; the callbacks run in the order of these instants, requests with the same instant
  in the order they were sent. \<^verbatim>\<open>await Promise.all(promises)\<close> rejects with the first
  rejection: of a provider, or of a callback in which \<^verbatim>\<open>new Big(..)\<close> throws.
\<close>

definition resolutionOrder :: "(nat \<Rightarrow> int) \<Rightarrow> 'a list \<Rightarrow> (nat \<times> 'a) list" where
  "resolutionOrder resolvedAt requests =
     sort_key (\<lambda>(i, request). resolvedAt i) (enumerate 0 requests)"

fun settle ::
  "Env \<Rightarrow> nat option \<Rightarrow> (nat \<Rightarrow> int) \<Rightarrow> (nat \<times> QuoteRequest) list \<Rightarrow> QuotesRun \<Rightarrow>
     error + QuotesRun" where
  "settle env requestTimeout resolvedAt [] run = Inr run"
| "settle env requestTimeout resolvedAt ((i, request) # rest) run =
     (case provider_getQuotes (request_provider request) requestTimeout (symbolsChunk request) of
        Inl e \<Rightarrow> Inl e
      | Inr result \<Rightarrow>
          (case onFulfilled env (request_dataSource request) (Date (resolvedAt i)) result run of
             Inl e \<Rightarrow> Inl e
           | Inr run' \<Rightarrow> settle env requestTimeout resolvedAt rest run'))"

text \<open>
  The whole method. \<open>None\<close>: the call does not return; \<open>Some (Inl e)\<close>: it throws \<open>e\<close>;
  \<open>Some (Inr run)\<close>: it returns \<open>responseOf run\<close>.
\<close>

definition getQuotes_run ::
  "Env \<Rightarrow> (nat \<Rightarrow> int) \<Rightarrow> AssetProfileIdentifier list \<Rightarrow> nat option \<Rightarrow> bool \<Rightarrow>
     UserWithSettings option \<Rightarrow> (error + QuotesRun) option" where
  "getQuotes_run env resolvedAt items requestTimeout useCache user =
     (case getItemsFromCache env useCache items (initialResponse env items) [] of
        (response, itemsToFetch) \<Rightarrow>
          (case requestsOfGroups env user (groupByDataSource itemsToFetch) of
             None \<Rightarrow> None
           | Some (Inl e) \<Rightarrow> Some (Inl e)
           | Some (Inr requests) \<Rightarrow>
               Some (settle env requestTimeout resolvedAt (resolutionOrder resolvedAt requests)
                       \<lparr>responseOf = response, upstreamRequests = requests,
                        cacheWrites = [], marketDataUpdates = []\<rparr>)))"

definition getQuotes ::
  "Env \<Rightarrow> (nat \<Rightarrow> int) \<Rightarrow> AssetProfileIdentifier list \<Rightarrow> nat option \<Rightarrow> bool \<Rightarrow>
     UserWithSettings option \<Rightarrow> (error + (string \<times> IDataProviderResponse) list) option" where
  "getQuotes env resolvedAt items requestTimeout useCache user =
     map_option (map_sum (\<lambda>e. e) responseOf)
       (getQuotes_run env resolvedAt items requestTimeout useCache user)"

text \<open>
  Two parts of the method on their own: the list \<^verbatim>\<open>itemsToFetch\<close> when the cache has been
  read, and the requests the loops send (whatever the providers answer later).
\<close>

definition itemsToFetch ::
  "Env \<Rightarrow> bool \<Rightarrow> AssetProfileIdentifier list \<Rightarrow> AssetProfileIdentifier list" where
  "itemsToFetch env useCache items =
     snd (getItemsFromCache env useCache items (initialResponse env items) [])"

definition requestsSent ::
  "Env \<Rightarrow> UserWithSettings option \<Rightarrow> bool \<Rightarrow> AssetProfileIdentifier list \<Rightarrow>
     (error + QuoteRequest list) option" where
  "requestsSent env user useCache items =
     requestsOfGroups env user (groupByDataSource (itemsToFetch env useCache items))"

subsection \<open>getHistoricalRaw\<close>

definition hasCurrency :: "Env \<Rightarrow> AssetProfileIdentifier list \<Rightarrow> string \<Rightarrow> bool" where
  "hasCurrency env assetProfileIdentifiers cur =
     list_ex (\<lambda>item. dataSource item = getDataSourceForExchangeRates env \<and> symbol item = cur)
       assetProfileIdentifiers"

text \<open>
  The loop over \<^verbatim>\<open>DERIVED_CURRENCIES\<close> at the start: a requested derived pair is filtered out
  (by symbol) and the root pair is pushed, with the data source for exchange rates.
\<close>

fun replaceDerivedCurrencies ::
  "Env \<Rightarrow> DerivedCurrency list \<Rightarrow> AssetProfileIdentifier list \<Rightarrow> AssetProfileIdentifier list" where
  "replaceDerivedCurrencies env [] assetProfileIdentifiers = assetProfileIdentifiers"
| "replaceDerivedCurrencies env (dc # dcs) assetProfileIdentifiers =
     replaceDerivedCurrencies env dcs
       (if hasCurrency env assetProfileIdentifiers (DEFAULT_CURRENCY env @ derived_currency dc)
        then filter (\<lambda>item. symbol item \<noteq> DEFAULT_CURRENCY env @ derived_currency dc)
               assetProfileIdentifiers
             @ [\<lparr>dataSource = getDataSourceForExchangeRates env,
                 symbol = DEFAULT_CURRENCY env @ rootCurrency dc\<rparr>]
        else assetProfileIdentifiers)"

text \<open>lodash \<^verbatim>\<open>uniqWith\<close>: a value is kept unless the comparator relates a kept value to it.\<close>

fun uniqWith_loop :: "('a \<Rightarrow> 'a \<Rightarrow> bool) \<Rightarrow> 'a list \<Rightarrow> 'a list \<Rightarrow> 'a list" where
  "uniqWith_loop comparator [] result = result"
| "uniqWith_loop comparator (x # xs) result =
     uniqWith_loop comparator xs
       (if list_ex (\<lambda>seen. comparator seen x) result then result else result @ [x])"

definition uniqWith :: "('a \<Rightarrow> 'a \<Rightarrow> bool) \<Rightarrow> 'a list \<Rightarrow> 'a list" where
  "uniqWith comparator xs = uniqWith_loop comparator xs []"

definition sameIdentifier :: "AssetProfileIdentifier \<Rightarrow> AssetProfileIdentifier \<Rightarrow> bool" where
  "sameIdentifier obj1 obj2 =
     (dataSource obj1 = dataSource obj2 \<and> symbol obj1 = symbol obj2)"

text \<open>The identifiers the method goes on with.\<close>

definition normalizedIdentifiers ::
  "Env \<Rightarrow> AssetProfileIdentifier list \<Rightarrow> AssetProfileIdentifier list" where
  "normalizedIdentifiers env assetProfileIdentifiers =
     uniqWith sameIdentifier
       (replaceDerivedCurrencies env (DERIVED_CURRENCIES env) assetProfileIdentifiers)"

text \<open>
  The series of \<^verbatim>\<open>${DEFAULT_CURRENCY}USX\<close>: \<^verbatim>\<open>data[format(date, DATE_FORMAT)] = { marketPrice: 100 }\<close>
  for each \<open>date\<close> of \<^verbatim>\<open>eachDayOfInterval({ end: to, start: from })\<close>.
\<close>

fun usxData :: "Env \<Rightarrow> Date list \<Rightarrow> (string \<times> price) list \<Rightarrow> error + (string \<times> price) list" where
  "usxData env [] data = Inr data"
| "usxData env (d # ds) data =
     (case formatDate env d of
        Inl e \<Rightarrow> Inl e
      | Inr k \<Rightarrow> usxData env ds (AList.update k (Num 100) data))"

text \<open>
  The loop that creates the promises. An error thrown in the loop (no provider, an invalid
  interval) ends the method at once: \<open>Inl\<close>. Otherwise each identifier its provider can
  handle has a promise, given by its symbol and the outcome it settles with:
  \<^verbatim>\<open>{ symbol, data: data?.[symbol] }\<close>, where \<open>None\<close> is \<^verbatim>\<open>undefined\<close>. The request timeout is
  \<^verbatim>\<open>ms('30 seconds')\<close>.
\<close>

fun historicalPromises ::
  "Env \<Rightarrow> Date \<Rightarrow> Date \<Rightarrow> AssetProfileIdentifier list \<Rightarrow>
     error + (string \<times> (error + (string \<times> price) list option)) list" where
  "historicalPromises env from to [] = Inr []"
| "historicalPromises env from to (item # items) =
     (case getDataProvider env (dataSource item) of
        Inl e \<Rightarrow> Inl e
      | Inr dataProvider \<Rightarrow>
          if canHandle dataProvider (symbol item)
          then
            (if symbol item = DEFAULT_CURRENCY env @ ''USX''
             then
               (case eachDayOfInterval env from to of
                  Inl e \<Rightarrow> Inl e
                | Inr days \<Rightarrow>
                    (case usxData env days [] of
                       Inl e \<Rightarrow> Inl e
                     | Inr data \<Rightarrow>
                         (case historicalPromises env from to items of
                            Inl e \<Rightarrow> Inl e
                          | Inr promises \<Rightarrow> Inr ((symbol item, Inr (Some data)) # promises))))
             else
               (case historicalPromises env from to items of
                  Inl e \<Rightarrow> Inl e
                | Inr promises \<Rightarrow>
                    Inr ((symbol item,
                          (case provider_getHistorical dataProvider 30000 (symbol item) from to of
                             Inl e \<Rightarrow> Inl e
                           | Inr data \<Rightarrow>
                               Inr (case data of
                                      None \<Rightarrow> None
                                    | Some d \<Rightarrow> map_option Object_entries (map_of d (symbol item)))))
                         # promises)))
          else historicalPromises env from to items)"

text \<open>
  \<^verbatim>\<open>await Promise.all(promises)\<close>: the values in the order of the promises, or a rejection.
  (When several promises reject, the one that rejects first in time decides the error; the
  model takes the first of the list.)
\<close>

fun Promise_all :: "('k \<times> (error + 'v)) list \<Rightarrow> error + ('k \<times> 'v) list" where
  "Promise_all [] = Inr []"
| "Promise_all ((k, Inl e) # promises) = Inl e"
| "Promise_all ((k, Inr v) # promises) =
     (case Promise_all promises of Inl e \<Rightarrow> Inl e | Inr vs \<Rightarrow> Inr ((k, v) # vs))"

text \<open>The loop \<^verbatim>\<open>for (const date in rootData)\<close> of \<^verbatim>\<open>transformHistoricalData\<close>.\<close>

fun transformLoop ::
  "rat \<Rightarrow> (string \<times> price) list \<Rightarrow> string list \<Rightarrow> (string \<times> price) list \<Rightarrow>
     error + (string \<times> price) list" where
  "transformLoop f rootData [] data = Inr data"
| "transformLoop f rootData (d # dates) data =
     (case map_of rootData d of
        None \<Rightarrow> Inl (Error ''TypeError: Cannot read properties of undefined'')
      | Some p \<Rightarrow>
          if isNumber p
          then (case Big_mul (Num f) p of
                  Inl e \<Rightarrow> Inl e
                | Inr v \<Rightarrow> transformLoop f rootData dates (AList.update d v data))
          else transformLoop f rootData dates data)"

definition transformHistoricalData ::
  "(string \<times> (string \<times> price) list option) list \<Rightarrow> string \<Rightarrow> rat \<Rightarrow>
     error + (string \<times> price) list" where
  "transformHistoricalData allData cur f =
     (case (case find (\<lambda>(symb, data). symb = cur) allData of
              None \<Rightarrow> None
            | Some (symb, data) \<Rightarrow> data) of
        None \<Rightarrow> Inr []
      | Some rootData \<Rightarrow> transformLoop f rootData (Object_keys rootData) [])"

text \<open>The loop \<^verbatim>\<open>for (const { data, symbol } of allData)\<close> that fills the result.\<close>

fun collectHistorical ::
  "Env \<Rightarrow> (string \<times> (string \<times> price) list option) list \<Rightarrow>
     (string \<times> (string \<times> price) list option) list \<Rightarrow>
     (string \<times> (string \<times> price) list option) list \<Rightarrow>
     error + (string \<times> (string \<times> price) list option) list" where
  "collectHistorical env allData [] result = Inr result"
| "collectHistorical env allData ((symb, data) # rest) result =
     (case find (\<lambda>dc. DEFAULT_CURRENCY env @ rootCurrency dc = symb) (DERIVED_CURRENCIES env) of
        Some dc \<Rightarrow>
          (case transformHistoricalData allData (DEFAULT_CURRENCY env @ rootCurrency dc)
                  (factor dc) of
             Inl e \<Rightarrow> Inl e
           | Inr series \<Rightarrow>
               collectHistorical env allData rest
                 (AList.update symb data
                    (AList.update (DEFAULT_CURRENCY env @ derived_currency dc) (Some series)
                       result)))
      | None \<Rightarrow> collectHistorical env allData rest (AList.update symb data result))"

text \<open>
  The whole method: \<open>Inl\<close> when it throws, otherwise the result object, whose value for a
  symbol is a series or \<^verbatim>\<open>undefined\<close> (\<open>None\<close>). Logging is left out.
\<close>

definition getHistoricalRaw ::
  "Env \<Rightarrow> AssetProfileIdentifier list \<Rightarrow> Date \<Rightarrow> Date \<Rightarrow>
     error + (string \<times> (string \<times> price) list option) list" where
  "getHistoricalRaw env assetProfileIdentifiers from to =
     (case historicalPromises env from to (normalizedIdentifiers env assetProfileIdentifiers) of
        Inl e \<Rightarrow> Inl e
      | Inr promises \<Rightarrow>
          (case Promise_all promises of
             Inl e \<Rightarrow> Inl e
           | Inr allData \<Rightarrow> collectHistorical env allData allData []))"

subsection \<open>getDataSources and search\<close>

text \<open>date-fns \<^verbatim>\<open>isBefore\<close>: a comparison of time values, false when one is NaN.\<close>

fun isBefore :: "Date \<Rightarrow> Date \<Rightarrow> bool" where
  "isBefore (Date a) (Date b) = (a < b)"
| "isBefore a b = False"

text \<open>
  \<^verbatim>\<open>new Date('2025-03-23')\<close> is midnight UTC of that day. \<^verbatim>\<open>dataSources.sort()\<close> orders the
  names by their code units.
\<close>

definition getDataSources :: "Env \<Rightarrow> bool \<Rightarrow> UserWithSettings \<Rightarrow> DataSource list" where
  "getDataSources env includeGhostfolio user =
     (let dataSources =
            (case DATA_SOURCES_LEGACY env of
               None \<Rightarrow> DATA_SOURCES env
             | Some legacy \<Rightarrow>
                 if \<not> hasRole env user ''ADMIN'' \<and>
                    isBefore (createdAt user) (Date 1742688000000) \<and> length legacy > 0
                 then legacy else DATA_SOURCES env);
          ghostfolioApiKey =
            (case API_KEY_GHOSTFOLIO env of None \<Rightarrow> False | Some k \<Rightarrow> k \<noteq> [])
      in sort_key (\<lambda>name. name)
           (if includeGhostfolio \<or> ghostfolioApiKey then dataSources @ [''GHOSTFOLIO'']
            else dataSources))"

text \<open>\<^verbatim>\<open>dataSources.map((dataSource) => this.getDataProvider(DataSource[dataSource]))\<close>\<close>

fun dataProviderServices :: "Env \<Rightarrow> DataSource list \<Rightarrow> error + DataProviderInterface list" where
  "dataProviderServices env [] = Inr []"
| "dataProviderServices env (ds # dataSources) =
     (case getDataProvider env ds of
        Inl e \<Rightarrow> Inl e
      | Inr dataProviderService \<Rightarrow>
          (case dataProviderServices env dataSources of
             Inl e \<Rightarrow> Inl e
           | Inr services \<Rightarrow> Inr (dataProviderService # services)))"

text \<open>
  The searches of the providers and \<^verbatim>\<open>await Promise.all(promises)\<close> (as for
  \<^const>\<open>Promise_all\<close>, the first rejection of the list stands for the first in time).
\<close>

fun searchResults ::
  "bool \<Rightarrow> string \<Rightarrow> string \<Rightarrow> DataProviderInterface list \<Rightarrow> error + LookupItem list option list" where
  "searchResults includeIndices query userId [] = Inr []"
| "searchResults includeIndices query userId (dataProviderService # services) =
     (case provider_search dataProviderService includeIndices query userId of
        Inl e \<Rightarrow> Inl e
      | Inr items \<Rightarrow>
          (case searchResults includeIndices query userId services of
             Inl e \<Rightarrow> Inl e
           | Inr results \<Rightarrow> Inr (items # results)))"

text \<open>The loop that concatenates the items of the results that have any.\<close>

fun concatItems :: "LookupItem list option list \<Rightarrow> LookupItem list \<Rightarrow> LookupItem list" where
  "concatItems [] lookupItems = lookupItems"
| "concatItems (items # results) lookupItems =
     concatItems results
       (case items of
          None \<Rightarrow> lookupItems
        | Some its \<Rightarrow> if length its > 0 then lookupItems @ its else lookupItems)"

text \<open>\<^verbatim>\<open>currency ? true : false\<close>\<close>

definition hasSupportedCurrency :: "LookupItem \<Rightarrow> bool" where
  "hasSupportedCurrency lookupItem =
     (case lookup_currency lookupItem of None \<Rightarrow> False | Some c \<Rightarrow> c \<noteq> [])"

text \<open>
  \<^verbatim>\<open>name.replace(new RegExp(` ${DEFAULT_CURRENCY}$`), '')\<close>, for a default currency without
  characters that are special in a regular expression: a final blank and currency code
  are cut off.
\<close>

definition removeCurrencySuffix :: "Env \<Rightarrow> string \<Rightarrow> string" where
  "removeCurrencySuffix env name =
     (let suffix = '' '' @ DEFAULT_CURRENCY env
      in if length suffix \<le> length name \<and> drop (length name - length suffix) name = suffix
         then take (length name - length suffix) name
         else name)"

text \<open>The callback of \<^verbatim>\<open>.map\<close> on the filtered items.\<close>

definition mapLookupItem :: "Env \<Rightarrow> UserWithSettings \<Rightarrow> LookupItem \<Rightarrow> LookupItem" where
  "mapLookupItem env user lookupItem =
     (let info = dataProviderInfo lookupItem;
          info' =
            (if ENABLE_FEATURE_SUBSCRIPTION env
             then (if subscription_type user = ''Premium'' then info\<lparr>info_isPremium := False\<rparr>
                   else info)
                    \<lparr>info_dataSource := None, info_name := None, info_url := None\<rparr>
             else info\<lparr>info_isPremium := False\<rparr>);
          name' =
            (if assetSubClass lookupItem = ''CRYPTOCURRENCY'' \<and> isExperimentalFeatures user
             then removeCurrencySuffix env (lookup_name lookupItem)
             else lookup_name lookupItem)
      in lookupItem\<lparr>dataProviderInfo := info', lookup_name := name'\<rparr>)"

text \<open>
  \<^verbatim>\<open>Array.prototype.sort\<close> with a comparison function is a stable sort; for a comparison
  function that is a total preorder its result is the one of insertion sort.
\<close>

fun insort_by :: "('a \<Rightarrow> 'a \<Rightarrow> int) \<Rightarrow> 'a \<Rightarrow> 'a list \<Rightarrow> 'a list" where
  "insort_by compareFn x [] = [x]"
| "insort_by compareFn x (y # ys) =
     (if compareFn x y \<le> 0 then x # y # ys else y # insort_by compareFn x ys)"

definition sort_by :: "('a \<Rightarrow> 'a \<Rightarrow> int) \<Rightarrow> 'a list \<Rightarrow> 'a list" where
  "sort_by compareFn xs = foldr (insort_by compareFn) xs []"

text \<open>\<^verbatim>\<open>name1?.toLowerCase().localeCompare(name2?.toLowerCase())\<close>\<close>

definition compareNames :: "Env \<Rightarrow> LookupItem \<Rightarrow> LookupItem \<Rightarrow> int" where
  "compareNames env item1 item2 =
     localeCompare env (lowerCase env (lookup_name item1)) (lowerCase env (lookup_name item2))"

text \<open>The whole method; its value is the \<^verbatim>\<open>items\<close> of the response.\<close>

definition search ::
  "Env \<Rightarrow> bool \<Rightarrow> string \<Rightarrow> UserWithSettings \<Rightarrow> error + LookupItem list" where
  "search env includeIndices query user =
     (if length query < 2 then Inr []
      else
        (case dataProviderServices env (getDataSources env False user) of
           Inl e \<Rightarrow> Inl e
         | Inr services \<Rightarrow>
             (case searchResults includeIndices query (user_ident user) services of
                Inl e \<Rightarrow> Inl e
              | Inr results \<Rightarrow>
                  Inr (sort_by (compareNames env)
                         (map (mapLookupItem env user)
                            (filter hasSupportedCurrency (concatItems results [])))))))"

subsection \<open>Notions used to state what getQuotes does\<close>

text \<open>
  The symbols under which merging a provider result with the given keys stores a quote:
  each key that is not skipped, followed by the pairs of the derived currencies it is the
  root pair of.
\<close>

definition mergedSymbols :: "Env \<Rightarrow> string list \<Rightarrow> string list" where
  "mergedSymbols env keys =
     concat (map (\<lambda>symb.
                    if symb \<in> set (skippedSymbols env) then []
                    else symb #
                         map (\<lambda>dc. DEFAULT_CURRENCY env @ derived_currency dc)
                           (filter (\<lambda>dc. symb = DEFAULT_CURRENCY env @ rootCurrency dc)
                              (DERIVED_CURRENCIES env)))
               keys)"

text \<open>The same for all the requests of a call whose provider fulfils them.\<close>

definition upstreamSymbols :: "Env \<Rightarrow> nat option \<Rightarrow> QuoteRequest list \<Rightarrow> string list" where
  "upstreamSymbols env requestTimeout requests =
     concat (map (\<lambda>request.
                    case provider_getQuotes (request_provider request) requestTimeout
                           (symbolsChunk request) of
                      Inl e \<Rightarrow> []
                    | Inr result \<Rightarrow> mergedSymbols env (map fst (Object_entries result)))
               requests)"

text \<open>
  The quotes the cache phase takes for a symbol, in the order of the requested items (none
  without \<open>useCache\<close>).
\<close>

definition cachedQuotes ::
  "Env \<Rightarrow> bool \<Rightarrow> AssetProfileIdentifier list \<Rightarrow> string \<Rightarrow> IDataProviderResponse list" where
  "cachedQuotes env useCache items symb =
     List.map_filter
       (\<lambda>item. if useCache \<and> symbol item = symb then cachedQuote env item else None) items"



text \<open>
  The quote stored for a derived currency from the entry of its root pair, whose price is
  the finite number \<open>x\<close>.
\<close>

definition derivedQuote :: "IDataProviderResponse \<Rightarrow> DerivedCurrency \<Rightarrow> rat \<Rightarrow> IDataProviderResponse" where
  "derivedQuote rootQuote dc x =
     rootQuote\<lparr>currency := derived_currency dc, marketPrice := Num (x * factor dc),
               marketState := ''open''\<rparr>"


text \<open>
  The state of a call when the first \<open>k\<close> of its upstream promises have been fulfilled and
  their callbacks have run (\<open>Inl\<close> if one of them was rejected).
\<close>

definition runAfter ::
  "Env \<Rightarrow> (nat \<Rightarrow> int) \<Rightarrow> AssetProfileIdentifier list \<Rightarrow> nat option \<Rightarrow> bool \<Rightarrow>
     QuoteRequest list \<Rightarrow> nat \<Rightarrow> error + QuotesRun" where
  "runAfter env resolvedAt items requestTimeout useCache requests k =
     settle env requestTimeout resolvedAt (take k (resolutionOrder resolvedAt requests))
       \<lparr>responseOf = fst (getItemsFromCache env useCache items (initialResponse env items) []),
        upstreamRequests = requests, cacheWrites = [], marketDataUpdates = []\<rparr>"



section \<open>An example configuration\<close>

text \<open>
  A configuration on which the theorems below are instantiated: default currency USD,
  the derived currencies GBp, ILA and ZAc (a hundredth of GBP, ILS and ZAR), a free
  provider YAHOO that takes two symbols per request and a premium provider GHOSTFOLIO
  without a maximum. Time values count days here.
\<close>

definition quoteAAPL :: IDataProviderResponse where
  "quoteAAPL = \<lparr>currency = ''USD'', quote_dataSource = ''YAHOO'', marketPrice = Num 150,
                marketState = ''open''\<rparr>"

definition quoteGBP :: IDataProviderResponse where
  "quoteGBP = \<lparr>currency = ''GBP'', quote_dataSource = ''YAHOO'', marketPrice = Num (4 / 5),
               marketState = ''closed''\<rparr>"

definition quoteMSFT :: IDataProviderResponse where
  "quoteMSFT = \<lparr>currency = ''USD'', quote_dataSource = ''YAHOO'', marketPrice = Num 400,
                marketState = ''closed''\<rparr>"

definition quoteMSFTcached :: IDataProviderResponse where
  "quoteMSFTcached = \<lparr>currency = ''USD'', quote_dataSource = ''YAHOO'', marketPrice = Num 399,
                      marketState = ''closed''\<rparr>"

definition quoteMSFTghostfolio :: IDataProviderResponse where
  "quoteMSFTghostfolio = \<lparr>currency = ''USD'', quote_dataSource = ''GHOSTFOLIO'',
                          marketPrice = Num 401, marketState = ''open''\<rparr>"

definition quoteNVDA :: IDataProviderResponse where
  "quoteNVDA = \<lparr>currency = ''USD'', quote_dataSource = ''GHOSTFOLIO'', marketPrice = Num 900,
                marketState = ''open''\<rparr>"

definition quoteUSX :: IDataProviderResponse where
  "quoteUSX = \<lparr>currency = ''USX'', quote_dataSource = ''YAHOO'', marketPrice = Num 5,
               marketState = ''closed''\<rparr>"

text \<open>The object with the given entries, assigned in this order.\<close>

definition object_of :: "('k \<times> 'v) list \<Rightarrow> ('k, 'v) alist" where
  "object_of entries = foldl (\<lambda>obj (k, v). DAList.update k v obj) DAList.empty entries"

definition yahooQuotes :: "(string, IDataProviderResponse) alist" where
  "yahooQuotes = object_of [(''AAPL'', quoteAAPL), (''USDGBP'', quoteGBP), (''MSFT'', quoteMSFT)]"

definition ghostfolioQuotes :: "(string, IDataProviderResponse) alist" where
  "ghostfolioQuotes =
     object_of [(''USDGBp'', quoteGBP), (''NVDA'', quoteNVDA), (''MSFT'', quoteMSFTghostfolio)]"

definition seriesGBP :: "(string, price) alist" where
  "seriesGBP = object_of [(''2024-01-01'', Num (4 / 5)), (''2024-01-02'', NoNumber),
                      (''2024-01-03'', Num (3 / 4))]"

definition lookupItemOf :: "string \<Rightarrow> string \<Rightarrow> string option \<Rightarrow> LookupItem" where
  "lookupItemOf symb name cur =
     \<lparr>assetClass = ''EQUITY'', assetSubClass = ''STOCK'', lookup_currency = cur,
      dataProviderInfo = \<lparr>info_isPremium = True, info_dataSource = Some ''YAHOO'',
                          info_name = Some ''Yahoo Finance'', info_url = None\<rparr>,
      lookup_dataSource = ''YAHOO'', lookup_name = name, lookup_symbol = symb\<rparr>"

definition yahoo :: DataProviderInterface where
  "yahoo =
     \<lparr>getName = ''YAHOO'', isPremium = False, getMaxNumberOfSymbolsPerRequest = Some 2,
      canHandle = (\<lambda>symb. True),
      provider_getQuotes =
        (\<lambda>requestTimeout symbols. Inr (DAList.filter (\<lambda>(symb, q). symb \<in> set symbols) yahooQuotes)),
      provider_getHistorical =
        (\<lambda>requestTimeout symb from to. Inr (Some [(''USDGBP'', seriesGBP)])),
      provider_search =
        (\<lambda>includeIndices query userId.
           Inr (Some [lookupItemOf ''MSFT'' ''microsoft'' (Some ''USD''),
                      lookupItemOf ''XYZ'' ''nocurrency'' None,
                      lookupItemOf ''AAPL'' ''apple'' (Some ''USD'')]))\<rparr>"

definition ghostfolio :: DataProviderInterface where
  "ghostfolio =
     \<lparr>getName = ''GHOSTFOLIO'', isPremium = True, getMaxNumberOfSymbolsPerRequest = None,
      canHandle = (\<lambda>symb. False),
      provider_getQuotes =
        (\<lambda>requestTimeout symbols.
           if symbols = [] then Inl (Error ''no symbols'') else Inr ghostfolioQuotes),
      provider_getHistorical = (\<lambda>requestTimeout symb from to. Inr None),
      provider_search = (\<lambda>includeIndices query userId. Inr None)\<rparr>"

definition demoDerivedCurrencies :: "DerivedCurrency list" where
  "demoDerivedCurrencies =
     [\<lparr>derived_currency = ''GBp'', factor = 100, rootCurrency = ''GBP''\<rparr>,
      \<lparr>derived_currency = ''ILA'', factor = 100, rootCurrency = ''ILS''\<rparr>,
      \<lparr>derived_currency = ''ZAc'', factor = 100, rootCurrency = ''ZAR''\<rparr>]"

definition demoEnv :: Env where
  "demoEnv =
     \<lparr>DEFAULT_CURRENCY = ''USD'',
      DERIVED_CURRENCIES = demoDerivedCurrencies,
      isCurrency = (\<lambda>c. c \<in> set [''USD'', ''EUR'', ''GBP'', ''ILS'', ''ZAR'', ''USX'', ''GBp'',
                                   ''ILA'', ''ZAc'']),
      isDerivedCurrency = (\<lambda>c. c \<in> set [''USX'', ''GBp'', ''ILA'', ''ZAc'']),
      getCurrencyFromSymbol = (\<lambda>symb. if take 3 symb = ''USD'' then drop 3 symb else symb),
      getStartOfUtcDate = (\<lambda>d. d),
      hasRole = (\<lambda>user role. False),
      ENABLE_FEATURE_SUBSCRIPTION = True,
      CACHE_QUOTES_TTL = 60000,
      DATA_SOURCE_EXCHANGE_RATES = ''YAHOO'',
      DATA_SOURCES = [''YAHOO''],
      DATA_SOURCES_LEGACY = None,
      dataProviderMapping = (\<lambda>name. None),
      API_KEY_GHOSTFOLIO = None,
      dataProviderInterfaces = [yahoo, ghostfolio],
      getQuoteKey = (\<lambda>ds symb. ''quote-'' @ ds @ ''-'' @ symb),
      redis_get = map_of [(''quote-YAHOO-MSFT'', ''{MSFT}''), (''quote-YAHOO-USDUSX'', ''{USX}'')],
      JSON_parse = map_of [(''{MSFT}'', quoteMSFTcached), (''{USX}'', quoteUSX)],
      JSON_stringify = (\<lambda>q. currency q @ ''/'' @ marketState q),
      updateMany = (\<lambda>data. Inl (Error ''database is down'')),
      queryRawUnsafe = (\<lambda>q. Inl (Error ''database is down'')),
      format = (\<lambda>t. if t = 1 then ''2024-01-01'' else if t = 2 then ''2024-01-02''
                     else ''2024-01-03''),
      eachDayOfInterval =
        (\<lambda>start stop. case (start, stop) of
           (Date a, Date b) \<Rightarrow> if a \<le> b then Inr (map Date [a..b])
                               else Inl (RangeError ''Invalid interval'')
         | _ \<Rightarrow> Inl (RangeError ''Invalid interval'')),
      lowerCase = (\<lambda>s. s),
      localeCompare = (\<lambda>a b. if a < b then - 1 else if a = b then 0 else 1)\<rparr>"

definition basicUser :: UserWithSettings where
  "basicUser = \<lparr>user_ident = ''u1'', createdAt = Date 0, subscription_type = ''Basic'',
                isExperimentalFeatures = False\<rparr>"

definition item_of :: "DataSource \<Rightarrow> string \<Rightarrow> AssetProfileIdentifier" where
  "item_of ds symb = \<lparr>dataSource = ds, symbol = symb\<rparr>"

definition demoItems :: "AssetProfileIdentifier list" where
  "demoItems =
     [item_of ''YAHOO'' ''AAPL'', item_of ''GHOSTFOLIO'' ''NVDA'',
      item_of ''YAHOO'' ''MSFT'', item_of ''YAHOO'' ''USDGBp'',
      item_of ''YAHOO'' ''USDGBP'', item_of ''YAHOO'' ''TSLA'',
      item_of ''GHOSTFOLIO'' ''MSFT'']"

definition demoRequests :: "QuoteRequest list" where
  "demoRequests =
     [\<lparr>request_dataSource = ''YAHOO'', request_provider = yahoo,
       symbolsChunk = [''AAPL'', ''USDGBP'']\<rparr>,
      \<lparr>request_dataSource = ''YAHOO'', request_provider = yahoo, symbolsChunk = [''TSLA'']\<rparr>,
      \<lparr>request_dataSource = ''GHOSTFOLIO'', request_provider = ghostfolio,
       symbolsChunk = [''NVDA'', ''MSFT'']\<rparr>]"

text \<open>
  A call for \<open>demoItems\<close> with the cache, without a user, in which the promises settle in the
  reverse order of the requests: the states after the cache phase and after each callback.
\<close>

definition demoResolvedAt :: "nat \<Rightarrow> int" where
  "demoResolvedAt i = - int i"

definition quoteGBp :: IDataProviderResponse where
  "quoteGBp = \<lparr>currency = ''GBp'', quote_dataSource = ''YAHOO'', marketPrice = Num 80,
               marketState = ''open''\<rparr>"

definition demoUpdate :: "string \<Rightarrow> DataSource \<Rightarrow> int \<Rightarrow> rat \<Rightarrow> MarketDataUpdate" where
  "demoUpdate symb ds t p =
     \<lparr>update_symbol = symb, update_dataSource = ds, update_date = Date t,
      update_marketPrice = Num p, update_state = ''INTRADAY''\<rparr>"

definition demoRun0 :: QuotesRun where
  "demoRun0 = \<lparr>responseOf = [(''MSFT'', quoteMSFTcached)], upstreamRequests = demoRequests,
               cacheWrites = [], marketDataUpdates = []\<rparr>"

definition demoRun1 :: QuotesRun where
  "demoRun1 = \<lparr>responseOf = [(''MSFT'', quoteMSFTghostfolio), (''NVDA'', quoteNVDA)],
               upstreamRequests = demoRequests,
               cacheWrites = [(''quote-GHOSTFOLIO-NVDA'', ''USD/open'', 60000),
                              (''quote-GHOSTFOLIO-MSFT'', ''USD/open'', 60000)],
               marketDataUpdates =
                 [[demoUpdate ''MSFT'' ''GHOSTFOLIO'' (- 2) 401,
                   demoUpdate ''NVDA'' ''GHOSTFOLIO'' (- 2) 900]]\<rparr>"

definition demoRun2 :: QuotesRun where
  "demoRun2 =
     demoRun1\<lparr>marketDataUpdates :=
                 [[demoUpdate ''MSFT'' ''GHOSTFOLIO'' (- 2) 401,
                   demoUpdate ''NVDA'' ''GHOSTFOLIO'' (- 2) 900],
                  [demoUpdate ''MSFT'' ''GHOSTFOLIO'' (- 1) 401,
                   demoUpdate ''NVDA'' ''GHOSTFOLIO'' (- 1) 900]]\<rparr>"

definition demoRun :: QuotesRun where
  "demoRun =
     \<lparr>responseOf = [(''MSFT'', quoteMSFTghostfolio), (''NVDA'', quoteNVDA),
                    (''AAPL'', quoteAAPL), (''USDGBP'', quoteGBP), (''USDGBp'', quoteGBp)],
      upstreamRequests = demoRequests,
      cacheWrites = [(''quote-GHOSTFOLIO-NVDA'', ''USD/open'', 60000),
                     (''quote-GHOSTFOLIO-MSFT'', ''USD/open'', 60000),
                     (''quote-YAHOO-AAPL'', ''USD/open'', 60000),
                     (''quote-YAHOO-USDGBP'', ''GBP/closed'', 60000),
                     (''quote-YAHOO-USDGBp'', ''GBp/open'', 60000)],
      marketDataUpdates =
        [[demoUpdate ''MSFT'' ''GHOSTFOLIO'' (- 2) 401,
          demoUpdate ''NVDA'' ''GHOSTFOLIO'' (- 2) 900],
         [demoUpdate ''MSFT'' ''GHOSTFOLIO'' (- 1) 401,
          demoUpdate ''NVDA'' ''GHOSTFOLIO'' (- 1) 900],
         [demoUpdate ''MSFT'' ''GHOSTFOLIO'' 0 401, demoUpdate ''NVDA'' ''GHOSTFOLIO'' 0 900,
          demoUpdate ''AAPL'' ''YAHOO'' 0 150, demoUpdate ''USDGBp'' ''YAHOO'' 0 80]]\<rparr>"



text \<open>
  Calls of a user with the subscription type \<^verbatim>\<open>Basic\<close>: one symbol for a premium and for a
  free data source; and a symbol and a currency pair for the premium data source, whose
  provider answers with its whole table.
\<close>

definition premiumItems :: "AssetProfileIdentifier list" where
  "premiumItems = [item_of ''GHOSTFOLIO'' ''AAPL'', item_of ''YAHOO'' ''AAPL'']"

definition premiumRun :: QuotesRun where
  "premiumRun =
     \<lparr>responseOf = [(''AAPL'', quoteAAPL)],
      upstreamRequests =
        [\<lparr>request_dataSource = ''YAHOO'', request_provider = yahoo, symbolsChunk = [''AAPL'']\<rparr>],
      cacheWrites = [(''quote-YAHOO-AAPL'', ''USD/open'', 60000)],
      marketDataUpdates = [[demoUpdate ''AAPL'' ''YAHOO'' 0 150]]\<rparr>"

definition basicItems :: "AssetProfileIdentifier list" where
  "basicItems = [item_of ''GHOSTFOLIO'' ''NVDA'', item_of ''YAHOO'' ''AAPL'',
                 item_of ''GHOSTFOLIO'' ''USDGBP'']"

definition basicRequests :: "QuoteRequest list" where
  "basicRequests =
     [\<lparr>request_dataSource = ''GHOSTFOLIO'', request_provider = ghostfolio,
       symbolsChunk = [''USDGBP'']\<rparr>,
      \<lparr>request_dataSource = ''YAHOO'', request_provider = yahoo, symbolsChunk = [''AAPL'']\<rparr>]"

definition basicRun :: QuotesRun where
  "basicRun =
     \<lparr>responseOf = [(''AAPL'', quoteAAPL), (''NVDA'', quoteNVDA), (''MSFT'', quoteMSFTghostfolio)],
      upstreamRequests = basicRequests,
      cacheWrites = [(''quote-YAHOO-AAPL'', ''USD/open'', 60000),
                     (''quote-GHOSTFOLIO-NVDA'', ''USD/open'', 60000),
                     (''quote-GHOSTFOLIO-MSFT'', ''USD/open'', 60000)],
      marketDataUpdates =
        [[demoUpdate ''AAPL'' ''YAHOO'' (- 1) 150],
         [demoUpdate ''AAPL'' ''YAHOO'' 0 150, demoUpdate ''NVDA'' ''GHOSTFOLIO'' 0 900,
          demoUpdate ''MSFT'' ''GHOSTFOLIO'' 0 401]]\<rparr>"
section \<open>The requests sent upstream\<close>

lemma slice_chunk:
  "0 \<le> i \<Longrightarrow> 0 \<le> n \<Longrightarrow> i \<le> int (length xs) \<Longrightarrow>
     slice i (i + n) xs = take (nat n) (drop (nat i) xs)"
  by (auto simp: slice_def Let_def min_def)

lemma chunkLoop_diverges_aux:
  "chunkLoop i n symbols chunks = Some cs \<Longrightarrow> n \<le> 0 \<longrightarrow> \<not> i < int (length symbols)"
proof (rule chunkLoop.raw_induct
    [where P = "\<lambda>i n symbols chunks cs. n \<le> 0 \<longrightarrow> \<not> i < int (length symbols)"])
  fix f :: "int \<Rightarrow> int \<Rightarrow> string list \<Rightarrow> string list list \<Rightarrow> string list list option"
    and i n symbols chunks cs
  assume ih: "\<And>i n symbols chunks cs. f i n symbols chunks = Some cs \<Longrightarrow>
                 n \<le> 0 \<longrightarrow> \<not> i < int (length symbols)"
    and step: "(if i < int (length symbols)
                then f (i + n) n symbols (chunks @ [slice i (i + n) symbols])
                else Some chunks) = Some cs"
  show "n \<le> 0 \<longrightarrow> \<not> i < int (length symbols)"
  proof (intro impI notI)
    assume n: "n \<le> 0" and lt: "i < int (length symbols)"
    from step lt have "f (i + n) n symbols (chunks @ [slice i (i + n) symbols]) = Some cs"
      by simp
    from ih [OF this] n lt show False by simp
  qed
qed

lemma chunkLoop_diverges:
  "chunkLoop i n symbols chunks = Some cs \<Longrightarrow> n \<le> 0 \<Longrightarrow> \<not> i < int (length symbols)"
  using chunkLoop_diverges_aux by blast



lemma chunkLoop_positive:
  assumes "0 < n" and "0 \<le> i"
  shows "\<exists>cs. chunkLoop i n symbols chunks = Some (chunks @ cs) \<and>
              concat cs = drop (nat i) symbols \<and>
              (\<forall>c \<in> set cs. c \<noteq> [] \<and> int (length c) \<le> n)"
  using assms(2)
proof (induction "nat (int (length symbols) - i)" arbitrary: i chunks rule: less_induct)
  case less
  show ?case
  proof (cases "i < int (length symbols)")
    case False
    then show ?thesis
      by (subst chunkLoop.simps) simp
  next
    case True
    have m: "nat (int (length symbols) - (i + n)) < nat (int (length symbols) - i)"
      using True assms(1) by linarith
    have nn: "0 \<le> i + n" using less.prems assms(1) by simp
    obtain cs where cs: "chunkLoop (i + n) n symbols ((chunks @ [slice i (i + n) symbols])) =
          Some ((chunks @ [slice i (i + n) symbols]) @ cs)"
        "concat cs = drop (nat (i + n)) symbols"
        "\<forall>c \<in> set cs. c \<noteq> [] \<and> int (length c) \<le> n"
      using less.hyps [OF m nn] by blast
    have sl: "slice i (i + n) symbols = take (nat n) (drop (nat i) symbols)"
      using slice_chunk [of i n symbols] True less.prems assms(1) by simp
    have "nat (i + n) = nat n + nat i"
      using less.prems assms(1) by (simp add: nat_add_distrib)
    then have d: "drop (nat (i + n)) symbols = drop (nat n) (drop (nat i) symbols)"
      by (simp only: drop_drop)
    have ne: "slice i (i + n) symbols \<noteq> []"
      using sl True less.prems assms(1) by auto
    have le: "int (length (slice i (i + n) symbols)) \<le> n"
      using sl assms(1) by simp
    have "chunkLoop i n symbols chunks = Some (chunks @ (slice i (i + n) symbols # cs))"
      using True cs(1) by (subst chunkLoop.simps) simp
    moreover have "concat (slice i (i + n) symbols # cs) = drop (nat i) symbols"
      using cs(2) sl d append_take_drop_id [of "nat n" "drop (nat i) symbols"] by simp
    ultimately show ?thesis
      using cs(3) ne le by (intro exI [of _ "slice i (i + n) symbols # cs"]) simp
  qed
qed


lemma chunkLoop_returns:
  assumes "chunkLoop 0 n symbols [] = Some cs"
  shows "concat cs = symbols \<and> (\<forall>c \<in> set cs. c \<noteq> [] \<and> int (length c) \<le> n)"
proof (cases "symbols = []")
  case True
  then show ?thesis
    using assms by (subst (asm) chunkLoop.simps) auto
next
  case False
  then have "0 < n"
    using chunkLoop_diverges [OF assms] by (cases "n \<le> 0") auto
  then show ?thesis
    using chunkLoop_positive [of n 0 symbols "[]"] assms by auto
qed


lemma groupBy_loop_props:
  "distinct (map fst result) \<Longrightarrow>
     distinct (map fst (groupBy_loop items result)) \<and>
     (\<forall>ds. map_of (groupBy_loop items result) ds =
        (case map_of result ds of
           None \<Rightarrow> if \<exists>i \<in> set items. dataSource i = ds
                    then Some (filter (\<lambda>i. dataSource i = ds) items) else None
         | Some g \<Rightarrow> Some (g @ filter (\<lambda>i. dataSource i = ds) items)))"
proof (induction items arbitrary: result)
  case Nil
  then show ?case by (auto split: option.splits)
next
  case (Cons item items)
  let ?r = "(case map_of result (dataSource item) of
          None \<Rightarrow> AList.update (dataSource item) [item] result
        | Some g \<Rightarrow> AList.update (dataSource item) (g @ [item]) result)"
  have d: "distinct (map fst ?r)"
    using Cons.prems by (simp add: distinct_update split: option.splits)
  have m: "\<And>ds. map_of ?r ds =
      (if ds = dataSource item
       then Some ((case map_of result ds of None \<Rightarrow> [] | Some g \<Rightarrow> g) @ [item])
       else map_of result ds)"
    by (simp add: update_conv' split: option.splits)
  show ?case
    using Cons.IH [OF d] by (auto simp: m split: option.splits)
qed

lemma groupByDataSource_props:
  "distinct (map fst (groupByDataSource items))"
  "map_of (groupByDataSource items) ds =
     (if ds \<in> dataSource ` set items then Some (filter (\<lambda>i. dataSource i = ds) items) else None)"
  using groupBy_loop_props [of "[]" items] by (auto simp: groupByDataSource_def)

lemma groupByDataSource_mem:
  "(ds, ids) \<in> set (groupByDataSource items) \<longleftrightarrow>
     ds \<in> dataSource ` set items \<and> ids = filter (\<lambda>i. dataSource i = ds) items"
  using groupByDataSource_props(1) [of items] groupByDataSource_props(2) [of items ds]
    map_of_eq_Some_iff [of "groupByDataSource items" ds ids]
  by (auto split: if_splits)

lemma requestsOfGroups_props:
  "requestsOfGroups env user groups = Some (Inr requests) \<Longrightarrow> distinct (map fst groups) \<Longrightarrow>
     (\<forall>(ds, ids) \<in> set groups. \<exists>p cs.
        getDataProvider env ds = Inr p \<and>
        chunkLoop 0 (maximumNumberOfSymbolsPerRequest p) (symbolsOf env p user ids) [] = Some cs \<and>
        filter (\<lambda>r. request_dataSource r = ds) requests =
          map (\<lambda>c. \<lparr>request_dataSource = ds, request_provider = p, symbolsChunk = c\<rparr>) cs)
     \<and> (\<forall>r \<in> set requests. request_dataSource r \<in> fst ` set groups)"
proof (induction groups arbitrary: requests)
  case Nil
  then show ?case by simp
next
  case (Cons g groups)
  obtain ds ids where g: "g = (ds, ids)" by (cases g)
  from Cons.prems(1) obtain p cs rest where
    p: "getDataProvider env ds = Inr p"
    and cs: "chunkLoop 0 (maximumNumberOfSymbolsPerRequest p) (symbolsOf env p user ids) [] = Some cs"
    and rest: "requestsOfGroups env user groups = Some (Inr rest)"
    and req: "requests = map (\<lambda>c. \<lparr>request_dataSource = ds, request_provider = p, symbolsChunk = c\<rparr>) cs @ rest"
    by (auto simp: g split: sum.splits option.splits)
  have dg: "distinct (map fst groups)" and nin: "ds \<notin> fst ` set groups"
    using Cons.prems(2) by (auto simp: g)
  note ih = Cons.IH [OF rest dg]
  have rest_ds: "filter (\<lambda>r. request_dataSource r = ds) rest = []"
    using ih nin by (auto simp: filter_empty_conv)
  have here: "filter (\<lambda>r. request_dataSource r = ds)
                (map (\<lambda>c. \<lparr>request_dataSource = ds, request_provider = p, symbolsChunk = c\<rparr>) cs) =
              map (\<lambda>c. \<lparr>request_dataSource = ds, request_provider = p, symbolsChunk = c\<rparr>) cs"
    by (induction cs) auto
  have other: "\<And>ds'. ds' \<noteq> ds \<Longrightarrow> filter (\<lambda>r. request_dataSource r = ds')
                (map (\<lambda>c. \<lparr>request_dataSource = ds, request_provider = p, symbolsChunk = c\<rparr>) cs) = []"
    by (auto simp: filter_empty_conv)
  have 1: "\<exists>p cs. getDataProvider env ds = Inr p \<and>
        chunkLoop 0 (maximumNumberOfSymbolsPerRequest p) (symbolsOf env p user ids) [] = Some cs \<and>
        filter (\<lambda>r. request_dataSource r = ds) requests =
          map (\<lambda>c. \<lparr>request_dataSource = ds, request_provider = p, symbolsChunk = c\<rparr>) cs"
    using p cs req rest_ds here by auto
  have 2: "\<forall>(ds', ids') \<in> set groups. \<exists>p cs.
        getDataProvider env ds' = Inr p \<and>
        chunkLoop 0 (maximumNumberOfSymbolsPerRequest p) (symbolsOf env p user ids') [] = Some cs \<and>
        filter (\<lambda>r. request_dataSource r = ds') requests =
          map (\<lambda>c. \<lparr>request_dataSource = ds', request_provider = p, symbolsChunk = c\<rparr>) cs"
  proof (clarify)
    fix ds' ids' assume mem: "(ds', ids') \<in> set groups"
    then have "ds' \<noteq> ds" using nin by force
    then have "filter (\<lambda>r. request_dataSource r = ds') requests =
               filter (\<lambda>r. request_dataSource r = ds') rest"
      using other req by simp
    then show "\<exists>p cs. getDataProvider env ds' = Inr p \<and>
        chunkLoop 0 (maximumNumberOfSymbolsPerRequest p) (symbolsOf env p user ids') [] = Some cs \<and>
        filter (\<lambda>r. request_dataSource r = ds') requests =
          map (\<lambda>c. \<lparr>request_dataSource = ds', request_provider = p, symbolsChunk = c\<rparr>) cs"
      using ih mem by fastforce
  qed
  have 3: "\<forall>r \<in> set requests. request_dataSource r \<in> fst ` set (g # groups)"
    using ih req by (auto simp: g)
  show ?case
    using 1 2 3 by (simp add: g)
qed


lemma getItemsFromCache_snd:
  "snd (getItemsFromCache env useCache items response acc) =
     acc @ filter (\<lambda>i. \<not> (useCache \<and> cachedQuote env i \<noteq> None)) items"
  by (induction items arbitrary: response acc) (auto split: option.splits)

lemma itemsToFetch_eq:
  "itemsToFetch env useCache items =
     filter (\<lambda>i. \<not> (useCache \<and> cachedQuote env i \<noteq> None)) items"
  by (simp add: itemsToFetch_def getItemsFromCache_snd)

lemma addDerivedCurrencies_requests:
  "addDerivedCurrencies env ds result symb q dcs run = Inr run' \<Longrightarrow>
     upstreamRequests run' = upstreamRequests run"
  by (induction dcs arbitrary: run)
     (auto simp: Let_def split: if_splits option.splits sum.splits)

lemma mergeEntries_requests:
  "mergeEntries env ds result entries run = Inr run' \<Longrightarrow>
     upstreamRequests run' = upstreamRequests run"
proof (induction entries arbitrary: run)
  case Nil
  then show ?case by simp
next
  case (Cons entry entries)
  obtain symb q where e: "entry = (symb, q)" by (cases entry)
  show ?case
    using Cons.prems Cons.IH addDerivedCurrencies_requests
    by (fastforce simp: e split: if_splits sum.splits)
qed

lemma onFulfilled_requests:
  "onFulfilled env ds now result run = Inr run' \<Longrightarrow>
     upstreamRequests run' = upstreamRequests run"
  using mergeEntries_requests
  by (fastforce simp: onFulfilled_def Let_def split: sum.splits)

lemma settle_requests:
  "settle env requestTimeout resolvedAt order run = Inr run' \<Longrightarrow>
     upstreamRequests run' = upstreamRequests run"
proof (induction order arbitrary: run)
  case Nil
  then show ?case by simp
next
  case (Cons x order)
  obtain i request where x: "x = (i, request)" by (cases x)
  show ?case
    using Cons.prems Cons.IH onFulfilled_requests
    by (fastforce simp: x split: sum.splits)
qed

lemma getQuotes_run_returns:
  assumes "getQuotes_run env resolvedAt items requestTimeout useCache user = Some (Inr run)"
  shows "\<exists>requests. requestsSent env user useCache items = Some (Inr requests) \<and>
           settle env requestTimeout resolvedAt (resolutionOrder resolvedAt requests)
             \<lparr>responseOf = fst (getItemsFromCache env useCache items (initialResponse env items) []),
              upstreamRequests = requests, cacheWrites = [], marketDataUpdates = []\<rparr> = Inr run \<and>
           upstreamRequests run = requests"
proof -
  obtain response toFetch where c:
    "getItemsFromCache env useCache items (initialResponse env items) [] = (response, toFetch)"
    by (cases "getItemsFromCache env useCache items (initialResponse env items) []")
  then have tf: "itemsToFetch env useCache items = toFetch"
    by (simp add: itemsToFetch_def)
  from assms c obtain requests where
    r: "requestsOfGroups env user (groupByDataSource toFetch) = Some (Inr requests)"
    and s: "settle env requestTimeout resolvedAt (resolutionOrder resolvedAt requests)
             \<lparr>responseOf = response, upstreamRequests = requests, cacheWrites = [],
              marketDataUpdates = []\<rparr> = Inr run"
    by (auto simp: getQuotes_run_def split: option.splits sum.splits)
  have "upstreamRequests run = requests"
    using settle_requests [OF s] by simp
  then show ?thesis
    using r s c tf by (simp add: requestsSent_def)
qed

lemma requests_kept:
  assumes "requestsOfGroups env user groups = Some (Inr requests)"
    and "distinct (map fst groups)"
    and "r \<in> set requests" and "s \<in> set (symbolsChunk r)"
  shows "keepSymbol env (request_provider r) user s \<and>
         getDataProvider env (request_dataSource r) = Inr (request_provider r) \<and>
         (\<exists>ids. (request_dataSource r, ids) \<in> set groups \<and> s \<in> symbol ` set ids)"
proof -
  note props = requestsOfGroups_props [OF assms(1,2)]
  from props assms(3) have "request_dataSource r \<in> fst ` set groups" by blast
  then obtain ids where g: "(request_dataSource r, ids) \<in> set groups" by force
  with props have "\<exists>p cs.
        getDataProvider env (request_dataSource r) = Inr p \<and>
        chunkLoop 0 (maximumNumberOfSymbolsPerRequest p) (symbolsOf env p user ids) [] = Some cs \<and>
        filter (\<lambda>r'. request_dataSource r' = request_dataSource r) requests =
          map (\<lambda>c. \<lparr>request_dataSource = request_dataSource r, request_provider = p,
                      symbolsChunk = c\<rparr>) cs"
    by blast
  then obtain p cs where p: "getDataProvider env (request_dataSource r) = Inr p"
    and cs: "chunkLoop 0 (maximumNumberOfSymbolsPerRequest p) (symbolsOf env p user ids) [] = Some cs"
    and f: "filter (\<lambda>r'. request_dataSource r' = request_dataSource r) requests =
          map (\<lambda>c. \<lparr>request_dataSource = request_dataSource r, request_provider = p,
                      symbolsChunk = c\<rparr>) cs"
    by blast
  have "r \<in> set (filter (\<lambda>r'. request_dataSource r' = request_dataSource r) requests)"
    using assms(3) by simp
  then obtain c where c: "c \<in> set cs"
    and rc: "r = \<lparr>request_dataSource = request_dataSource r, request_provider = p, symbolsChunk = c\<rparr>"
    unfolding f by auto
  have rp: "request_provider r = p" and ch: "symbolsChunk r = c"
    using rc by (metis QuoteRequest.select_convs(2), metis QuoteRequest.select_convs(3))
  have "s \<in> set (concat cs)"
    using c assms(4) ch by auto
  then have "s \<in> set (symbolsOf env p user ids)"
    using chunkLoop_returns [OF cs] by simp
  then have "keepSymbol env p user s" "s \<in> symbol ` set ids"
    by (auto simp: symbolsOf_def)
  then show ?thesis
    using rp p g by auto
qed



lemma requested_iff_kept:
  assumes "requestsSent env user useCache items = Some (Inr requests)"
    and "item \<in> set (itemsToFetch env useCache items)"
  shows "\<exists>dataProvider. getDataProvider env (dataSource item) = Inr dataProvider \<and>
           ((\<exists>request \<in> set requests. request_dataSource request = dataSource item \<and>
                symbol item \<in> set (symbolsChunk request)) \<longleftrightarrow>
            keepSymbol env dataProvider user (symbol item))"
proof -
  let ?toFetch = "itemsToFetch env useCache items"
  let ?groups = "groupByDataSource ?toFetch"
  let ?ds = "dataSource item"
  let ?ids = "filter (\<lambda>i. dataSource i = ?ds) ?toFetch"
  have rg: "requestsOfGroups env user ?groups = Some (Inr requests)"
    using assms(1) by (simp add: requestsSent_def)
  note props = requestsOfGroups_props [OF rg groupByDataSource_props(1)]
  have "(?ds, ?ids) \<in> set ?groups"
    using assms(2) groupByDataSource_mem by blast
  with props have "\<exists>p cs.
        getDataProvider env ?ds = Inr p \<and>
        chunkLoop 0 (maximumNumberOfSymbolsPerRequest p) (symbolsOf env p user ?ids) [] = Some cs \<and>
        filter (\<lambda>r. request_dataSource r = ?ds) requests =
          map (\<lambda>c. \<lparr>request_dataSource = ?ds, request_provider = p, symbolsChunk = c\<rparr>) cs"
    by blast
  then obtain p cs where p: "getDataProvider env ?ds = Inr p"
    and cs: "chunkLoop 0 (maximumNumberOfSymbolsPerRequest p) (symbolsOf env p user ?ids) [] = Some cs"
    and f: "filter (\<lambda>r. request_dataSource r = ?ds) requests =
          map (\<lambda>c. \<lparr>request_dataSource = ?ds, request_provider = p, symbolsChunk = c\<rparr>) cs"
    by blast
  have chunks: "map symbolsChunk (filter (\<lambda>r. request_dataSource r = ?ds) requests) = cs"
    by (simp add: f comp_def)
  have cc: "concat cs = symbolsOf env p user ?ids"
    using chunkLoop_returns [OF cs] by simp
  have "(\<exists>request \<in> set requests. request_dataSource request = ?ds \<and>
            symbol item \<in> set (symbolsChunk request)) \<longleftrightarrow>
        symbol item \<in> set (concat (map symbolsChunk (filter (\<lambda>r. request_dataSource r = ?ds) requests)))"
    by auto
  also have "\<dots> \<longleftrightarrow> symbol item \<in> set (symbolsOf env p user ?ids)"
    unfolding chunks cc ..
  also have "\<dots> \<longleftrightarrow> keepSymbol env p user (symbol item)"
    using assms(2) by (auto simp: symbolsOf_def)
  finally show ?thesis
    using p by blast
qed


lemma request_item:
  assumes "requestsSent env user useCache items = Some (Inr requests)"
    and "r \<in> set requests" and "s \<in> set (symbolsChunk r)"
  shows "keepSymbol env (request_provider r) user s \<and>
         getDataProvider env (request_dataSource r) = Inr (request_provider r) \<and>
         (\<exists>item \<in> set (itemsToFetch env useCache items).
            dataSource item = request_dataSource r \<and> symbol item = s)"
proof -
  note k = requests_kept [OF assms(1) [unfolded requestsSent_def] groupByDataSource_props(1)
      assms(2,3)]
  then obtain ids where
    ids: "(request_dataSource r, ids) \<in> set (groupByDataSource (itemsToFetch env useCache items))"
    and s: "s \<in> symbol ` set ids"
    by blast
  from ids have "ids = filter (\<lambda>i. dataSource i = request_dataSource r)
                         (itemsToFetch env useCache items)"
    by (simp add: groupByDataSource_mem)
  with s have "\<exists>item \<in> set (itemsToFetch env useCache items).
            dataSource item = request_dataSource r \<and> symbol item = s"
    by auto
  with k show ?thesis by blast
qed

lemma basic_not_kept:
  "subscription_type u = ''Basic'' \<Longrightarrow> ENABLE_FEATURE_SUBSCRIPTION env \<Longrightarrow>
     keepSymbol env p (Some u) s \<Longrightarrow> \<not> isCurrency env (getCurrencyFromSymbol env s) \<Longrightarrow>
     \<not> isPremium p"
  by (auto simp: keepSymbol_def split: if_splits)
section \<open>The example configuration, evaluated\<close>

lemma demoEnv_simps:
  "DEFAULT_CURRENCY demoEnv = ''USD''"
  "DERIVED_CURRENCIES demoEnv = demoDerivedCurrencies"
  "isCurrency demoEnv = (\<lambda>c. c \<in> set [''USD'', ''EUR'', ''GBP'', ''ILS'', ''ZAR'', ''USX'', ''GBp'', ''ILA'', ''ZAc''])"
  "isDerivedCurrency demoEnv = (\<lambda>c. c \<in> set [''USX'', ''GBp'', ''ILA'', ''ZAc''])"
  "getCurrencyFromSymbol demoEnv = (\<lambda>symb. if take 3 symb = ''USD'' then drop 3 symb else symb)"
  "ENABLE_FEATURE_SUBSCRIPTION demoEnv = True"
  "CACHE_QUOTES_TTL demoEnv = 60000"
  "DATA_SOURCE_EXCHANGE_RATES demoEnv = ''YAHOO''"
  "dataProviderMapping demoEnv = (\<lambda>name. None)"
  "dataProviderInterfaces demoEnv = [yahoo, ghostfolio]"
  "getQuoteKey demoEnv = (\<lambda>ds symb. ''quote-'' @ ds @ ''-'' @ symb)"
  "redis_get demoEnv = map_of [(''quote-YAHOO-MSFT'', ''{MSFT}''), (''quote-YAHOO-USDUSX'', ''{USX}'')]"
  "JSON_parse demoEnv = map_of [(''{MSFT}'', quoteMSFTcached), (''{USX}'', quoteUSX)]"
  by (simp_all add: demoEnv_def)

lemma yahoo_simps:
  "getName yahoo = ''YAHOO''" "isPremium yahoo = False"
  "getMaxNumberOfSymbolsPerRequest yahoo = Some 2"
  by (simp_all add: yahoo_def)

lemma ghostfolio_simps:
  "getName ghostfolio = ''GHOSTFOLIO''" "isPremium ghostfolio = True"
  "getMaxNumberOfSymbolsPerRequest ghostfolio = None"
  by (simp_all add: ghostfolio_def)

lemma demo_providers:
  "getDataProvider demoEnv ''YAHOO'' = Inr yahoo"
  "getDataProvider demoEnv ''GHOSTFOLIO'' = Inr ghostfolio"
  by (simp_all add: getDataProvider_def demoEnv_simps yahoo_simps ghostfolio_simps)

lemma demo_toFetch:
  "itemsToFetch demoEnv True demoItems =
     [item_of ''YAHOO'' ''AAPL'', item_of ''GHOSTFOLIO'' ''NVDA'',
      item_of ''YAHOO'' ''USDGBp'', item_of ''YAHOO'' ''USDGBP'', item_of ''YAHOO'' ''TSLA'',
      item_of ''GHOSTFOLIO'' ''MSFT'']"
  by (simp add: itemsToFetch_eq demoItems_def cachedQuote_def demoEnv_simps item_of_def)

lemma demo_groups:
  "groupByDataSource (itemsToFetch demoEnv True demoItems) =
     [(''YAHOO'', [item_of ''YAHOO'' ''AAPL'', item_of ''YAHOO'' ''USDGBp'',
                   item_of ''YAHOO'' ''USDGBP'', item_of ''YAHOO'' ''TSLA'']),
      (''GHOSTFOLIO'', [item_of ''GHOSTFOLIO'' ''NVDA'', item_of ''GHOSTFOLIO'' ''MSFT''])]"
  by (simp add: demo_toFetch groupByDataSource_def item_of_def)

lemma demo_chunks:
  "chunkLoop 0 2 [''AAPL'', ''USDGBP'', ''TSLA''] [] = Some [[''AAPL'', ''USDGBP''], [''TSLA'']]"
  "chunkLoop 0 MAX_SAFE_INTEGER [''NVDA'', ''MSFT''] [] = Some [[''NVDA'', ''MSFT'']]"
  by (simp_all add: chunkLoop.simps slice_def MAX_SAFE_INTEGER_def)

lemma demo_requestsSent:
  "requestsSent demoEnv None True demoItems = Some (Inr demoRequests)"
  by (simp add: requestsSent_def demo_groups demo_providers symbolsOf_def keepSymbol_def
      demoEnv_simps yahoo_simps ghostfolio_simps maximumNumberOfSymbolsPerRequest_def
      item_of_def demo_chunks demoRequests_def)


lemma demo_queryRawUnsafe: "queryRawUnsafe demoEnv q = Inl (Error ''database is down'')"
  by (simp add: demoEnv_def)

lemma demoEnv_more:
  "getStartOfUtcDate demoEnv = (\<lambda>d. d)"
  "JSON_stringify demoEnv = (\<lambda>q. currency q @ ''/'' @ marketState q)"
  "updateMany demoEnv = (\<lambda>data. Inl (Error ''database is down''))"
  "hasRole demoEnv = (\<lambda>user role. False)"
  "DATA_SOURCES demoEnv = [''YAHOO'']"
  "DATA_SOURCES_LEGACY demoEnv = None"
  "API_KEY_GHOSTFOLIO demoEnv = None"
  "format demoEnv = (\<lambda>t. if t = 1 then ''2024-01-01'' else if t = 2 then ''2024-01-02''
                     else ''2024-01-03'')"
  "lowerCase demoEnv = (\<lambda>s. s)"
  "localeCompare demoEnv = (\<lambda>a b. if a < b then - 1 else if a = b then 0 else 1)"
  by (simp_all add: demoEnv_def)

lemma impl_of_object_of:
  "DAList.impl_of (object_of entries) = foldl (\<lambda>obj (k, v). AList.update k v obj) [] entries"
proof -
  have "\<And>obj. DAList.impl_of (foldl (\<lambda>obj (k, v). DAList.update k v obj) obj entries) =
          foldl (\<lambda>obj (k, v). AList.update k v obj) (DAList.impl_of obj) entries"
  proof (induction entries)
    case Nil
    show ?case by simp
  next
    case (Cons e entries)
    obtain k v where e: "e = (k, v)" by (cases e)
    show ?case
      by (simp add: e Cons.IH DAList.update.rep_eq)
  qed
  then show ?thesis
    by (simp add: object_of_def DAList.empty.rep_eq)
qed

lemma demo_entries:
  "Object_entries yahooQuotes = [(''AAPL'', quoteAAPL), (''USDGBP'', quoteGBP), (''MSFT'', quoteMSFT)]"
  "Object_entries ghostfolioQuotes =
     [(''USDGBp'', quoteGBP), (''NVDA'', quoteNVDA), (''MSFT'', quoteMSFTghostfolio)]"
  by (simp_all add: Object_entries_def yahooQuotes_def ghostfolioQuotes_def impl_of_object_of)

lemma demo_yahoo_result:
  "provider_getQuotes yahoo t symbols =
     Inr (DAList.filter (\<lambda>(symb, q). symb \<in> set symbols) yahooQuotes)"
  by (simp add: yahoo_def)

lemma demo_yahoo_entries:
  "Object_entries (DAList.filter P yahooQuotes) =
     filter P [(''AAPL'', quoteAAPL), (''USDGBP'', quoteGBP), (''MSFT'', quoteMSFT)]"
  using demo_entries(1) by (simp add: Object_entries_def DAList.filter.rep_eq)

lemma demo_yahoo_lookup:
  "DAList.lookup (DAList.filter P yahooQuotes) s =
     map_of (filter P [(''AAPL'', quoteAAPL), (''USDGBP'', quoteGBP), (''MSFT'', quoteMSFT)]) s"
  using demo_yahoo_entries [of P] by (simp add: Object_entries_def DAList.lookup.rep_eq)

lemma demo_ghostfolio_result:
  "provider_getQuotes ghostfolio t [''NVDA'', ''MSFT''] = Inr ghostfolioQuotes"
  by (simp add: ghostfolio_def)

lemma demo_skipped:
  "skippedSymbols demoEnv = [''USDGBp'', ''USDILA'', ''USDZAc'', ''USDUSX'']"
  by (simp add: skippedSymbols_def demoEnv_simps demoDerivedCurrencies_def)

lemma demo_cache_phase:
  "getItemsFromCache demoEnv True demoItems (initialResponse demoEnv demoItems) [] =
     ([(''MSFT'', quoteMSFTcached)], itemsToFetch demoEnv True demoItems)"
  by (simp add: demo_toFetch)
     (simp add: demoItems_def item_of_def initialResponse_def cachedQuote_def demoEnv_simps)

lemma demo_order:
  "resolutionOrder demoResolvedAt demoRequests =
     [(2, demoRequests ! 2), (1, demoRequests ! 1), (0, demoRequests ! 0)]"
  by (simp add: resolutionOrder_def demoRequests_def demoResolvedAt_def enumerate_simps)

lemma demo_callback1:
  "onFulfilled demoEnv ''GHOSTFOLIO'' (Date (- 2)) ghostfolioQuotes demoRun0 = Inr demoRun1"
  by (simp add: onFulfilled_def demo_entries demo_skipped demoEnv_simps demoDerivedCurrencies_def
      demoRun0_def demoRun1_def intradayData_def Object_keys_def quoteMSFTghostfolio_def quoteNVDA_def quoteMSFTcached_def demoUpdate_def Let_def
      demoEnv_more)


lemma demo_callback2:
  "onFulfilled demoEnv ''YAHOO'' (Date (- 1))
     (DAList.filter (\<lambda>(symb, q). symb = ''TSLA'') yahooQuotes)
     demoRun1 = Inr demoRun2"
  by (simp add: onFulfilled_def demo_yahoo_entries demo_skipped demoEnv_simps
      demoRun1_def demoRun2_def intradayData_def Object_keys_def quoteMSFTghostfolio_def quoteNVDA_def quoteMSFTcached_def demoUpdate_def Let_def
      demoEnv_more)

lemma demo_callback3:
  "onFulfilled demoEnv ''YAHOO'' (Date 0)
     (DAList.filter (\<lambda>(symb, q). symb = ''AAPL'' \<or> symb = ''USDGBP'') yahooQuotes)
     demoRun2 = Inr demoRun"
  by (simp add: onFulfilled_def demo_yahoo_entries demo_yahoo_lookup demo_skipped demoEnv_simps
      demoDerivedCurrencies_def Big_mul_def
      demoRun1_def demoRun2_def demoRun_def intradayData_def Object_keys_def
      quoteMSFTghostfolio_def quoteNVDA_def demoUpdate_def quoteAAPL_def quoteGBP_def quoteGBp_def Let_def demoEnv_more)

lemma demo_run:
  "getQuotes_run demoEnv demoResolvedAt demoItems None True None = Some (Inr demoRun)"
proof -
  have "settle demoEnv None demoResolvedAt (resolutionOrder demoResolvedAt demoRequests) demoRun0 =
          Inr demoRun"
    unfolding demo_order
    by (simp add: demoRequests_def demo_ghostfolio_result demo_yahoo_result demo_callback1
        demo_callback2 demo_callback3 demoResolvedAt_def)
  then show ?thesis
    using demo_requestsSent
    by (simp add: getQuotes_run_def demo_cache_phase requestsSent_def demoRun0_def)
qed





lemma chunkLoop_demo_single:
  "chunkLoop 0 2 [''AAPL''] [] = Some [[''AAPL'']]"
  "chunkLoop 0 MAX_SAFE_INTEGER [''USDGBP''] [] = Some [[''USDGBP'']]"
  "chunkLoop 0 MAX_SAFE_INTEGER [] [] = Some []"
  by (simp_all add: chunkLoop.simps slice_def MAX_SAFE_INTEGER_def)

lemma premium_requestsSent:
  "requestsSent demoEnv (Some basicUser) True premiumItems =
     Some (Inr (upstreamRequests premiumRun))"
  by (simp add: requestsSent_def itemsToFetch_eq premiumItems_def cachedQuote_def demoEnv_simps
      item_of_def groupByDataSource_def demo_providers symbolsOf_def keepSymbol_def
      yahoo_simps ghostfolio_simps maximumNumberOfSymbolsPerRequest_def chunkLoop_demo_single
      premiumRun_def basicUser_def)

lemma premium_run:
  "getQuotes_run demoEnv demoResolvedAt premiumItems None True (Some basicUser) =
     Some (Inr premiumRun)"
proof -
  have c: "getItemsFromCache demoEnv True premiumItems (initialResponse demoEnv premiumItems) [] =
          ([], itemsToFetch demoEnv True premiumItems)"
    by (simp add: itemsToFetch_def)
      (simp add: premiumItems_def item_of_def initialResponse_def cachedQuote_def demoEnv_simps)
  have o: "resolutionOrder demoResolvedAt (upstreamRequests premiumRun) =
             [(0, upstreamRequests premiumRun ! 0)]"
    by (simp add: resolutionOrder_def premiumRun_def)
  have f: "onFulfilled demoEnv ''YAHOO'' (Date 0)
       (DAList.filter (\<lambda>(symb, q). symb = ''AAPL'') yahooQuotes)
       \<lparr>responseOf = [], upstreamRequests = upstreamRequests premiumRun, cacheWrites = [],
        marketDataUpdates = []\<rparr> = Inr premiumRun"
    by (simp add: onFulfilled_def demo_yahoo_entries demo_skipped demoEnv_simps
        demoDerivedCurrencies_def premiumRun_def intradayData_def Object_keys_def quoteAAPL_def
        demoUpdate_def Let_def demoEnv_more)
  have "settle demoEnv None demoResolvedAt
          (resolutionOrder demoResolvedAt (upstreamRequests premiumRun))
          \<lparr>responseOf = [], upstreamRequests = upstreamRequests premiumRun, cacheWrites = [],
           marketDataUpdates = []\<rparr> = Inr premiumRun"
    unfolding o using f
    by (simp add: premiumRun_def demo_yahoo_result demoResolvedAt_def)
  then show ?thesis
    using premium_requestsSent
    by (simp add: getQuotes_run_def c requestsSent_def)
qed

lemma basic_requestsSent:
  "requestsSent demoEnv (Some basicUser) True basicItems = Some (Inr basicRequests)"
  by (simp add: requestsSent_def itemsToFetch_eq basicItems_def cachedQuote_def demoEnv_simps
      item_of_def groupByDataSource_def demo_providers symbolsOf_def keepSymbol_def
      yahoo_simps ghostfolio_simps maximumNumberOfSymbolsPerRequest_def chunkLoop_demo_single
      basicRequests_def basicUser_def)

lemma basic_run:
  "getQuotes_run demoEnv demoResolvedAt basicItems None True (Some basicUser) =
     Some (Inr basicRun)"
proof -
  let ?run0 = "\<lparr>responseOf = [], upstreamRequests = basicRequests, cacheWrites = [],
        marketDataUpdates = []\<rparr>"
  let ?run1 = "\<lparr>responseOf = [(''AAPL'', quoteAAPL)], upstreamRequests = basicRequests,
        cacheWrites = [(''quote-YAHOO-AAPL'', ''USD/open'', 60000)],
        marketDataUpdates = [[demoUpdate ''AAPL'' ''YAHOO'' (- 1) 150]]\<rparr>"
  have c: "getItemsFromCache demoEnv True basicItems (initialResponse demoEnv basicItems) [] =
          ([], itemsToFetch demoEnv True basicItems)"
    by (simp add: itemsToFetch_def)
      (simp add: basicItems_def item_of_def initialResponse_def cachedQuote_def demoEnv_simps)
  have o: "resolutionOrder demoResolvedAt basicRequests =
             [(1, basicRequests ! 1), (0, basicRequests ! 0)]"
    by (simp add: resolutionOrder_def basicRequests_def demoResolvedAt_def)
  have f1: "onFulfilled demoEnv ''YAHOO'' (Date (- 1))
       (DAList.filter (\<lambda>(symb, q). symb = ''AAPL'') yahooQuotes) ?run0 = Inr ?run1"
    by (simp add: onFulfilled_def demo_yahoo_entries demo_skipped demoEnv_simps
        demoDerivedCurrencies_def intradayData_def Object_keys_def quoteAAPL_def
        demoUpdate_def Let_def demoEnv_more)
  have f2: "onFulfilled demoEnv ''GHOSTFOLIO'' (Date 0) ghostfolioQuotes ?run1 = Inr basicRun"
    by (simp add: onFulfilled_def demo_entries demo_skipped demoEnv_simps
        demoDerivedCurrencies_def basicRun_def intradayData_def Object_keys_def quoteAAPL_def
        quoteMSFTghostfolio_def quoteNVDA_def demoUpdate_def Let_def demoEnv_more)
  have g: "provider_getQuotes ghostfolio None [''USDGBP''] = Inr ghostfolioQuotes"
    by (simp add: ghostfolio_def)
  have "settle demoEnv None demoResolvedAt (resolutionOrder demoResolvedAt basicRequests) ?run0 =
          Inr basicRun"
    unfolding o using f1 f2
    by (simp add: basicRequests_def demo_yahoo_result g demoResolvedAt_def)
  then show ?thesis
    using basic_requestsSent
    by (simp add: getQuotes_run_def c requestsSent_def)
qed



section \<open>Merging a provider result\<close>

lemma Big_mul_Inr:
  "Big_mul a (Num f) = Inr p \<longleftrightarrow> (\<exists>x. a = Num x \<and> p = Num (x * f))"
  by (cases a) (auto simp: Big_mul_def)

lemma addDerived_Cons_root:
  assumes "addDerivedCurrencies env ds result s q (dc # dcs) run = Inr run'"
    and "s = DEFAULT_CURRENCY env @ rootCurrency dc"
  obtains rootQuote x where
    "DAList.lookup result s = Some rootQuote" "marketPrice rootQuote = Num x"
    "addDerivedCurrencies env ds result s q dcs
       (run\<lparr>responseOf := AList.update (DEFAULT_CURRENCY env @ derived_currency dc)
                (derivedQuote q dc x) (responseOf run),
             cacheWrites := cacheWrites run @
                [(getQuoteKey env ds (DEFAULT_CURRENCY env @ derived_currency dc),
                  JSON_stringify env (derivedQuote q dc x), CACHE_QUOTES_TTL env)]\<rparr>) = Inr run'"
proof -
  from assms obtain rootQuote p where
    l: "DAList.lookup result s = Some rootQuote"
    and b: "Big_mul (marketPrice rootQuote) (Num (factor dc)) = Inr p"
    and rec: "addDerivedCurrencies env ds result s q dcs
          (run\<lparr>responseOf := AList.update (DEFAULT_CURRENCY env @ derived_currency dc)
                   (q\<lparr>currency := derived_currency dc, marketPrice := p, marketState := ''open''\<rparr>)
                   (responseOf run),
                cacheWrites := cacheWrites run @
                   [(getQuoteKey env ds (DEFAULT_CURRENCY env @ derived_currency dc),
                     JSON_stringify env
                       (q\<lparr>currency := derived_currency dc, marketPrice := p, marketState := ''open''\<rparr>),
                     CACHE_QUOTES_TTL env)]\<rparr>) = Inr run'"
    by (auto simp: Let_def split: option.splits sum.splits)
  from b obtain x where "marketPrice rootQuote = Num x" "p = Num (x * factor dc)"
    using Big_mul_Inr by blast
  with l rec that show thesis
    by (simp add: derivedQuote_def)
qed

lemma addDerived_Cons_other:
  "s \<noteq> DEFAULT_CURRENCY env @ rootCurrency dc \<Longrightarrow>
     addDerivedCurrencies env ds result s q (dc # dcs) run =
     addDerivedCurrencies env ds result s q dcs run"
  by simp


lemma addDerived_keys:
  "addDerivedCurrencies env ds result s q dcs run = Inr run' \<Longrightarrow>
     fst ` set (responseOf run') = fst ` set (responseOf run) \<union>
       (\<lambda>dc. DEFAULT_CURRENCY env @ derived_currency dc) `
           {dc \<in> set dcs. s = DEFAULT_CURRENCY env @ rootCurrency dc}"
proof (induction dcs arbitrary: run)
  case Nil
  then show ?case by simp
next
  case (Cons dc dcs)
  show ?case
  proof (cases "s = DEFAULT_CURRENCY env @ rootCurrency dc")
    case False
    then show ?thesis using Cons by auto
  next
    case True
    from Cons.prems(1) True show ?thesis
    proof (rule addDerived_Cons_root)
      fix rootQuote x
      assume "addDerivedCurrencies env ds result s q dcs
       (run\<lparr>responseOf := AList.update (DEFAULT_CURRENCY env @ derived_currency dc)
                (derivedQuote q dc x) (responseOf run),
             cacheWrites := cacheWrites run @
                [(getQuoteKey env ds (DEFAULT_CURRENCY env @ derived_currency dc),
                  JSON_stringify env (derivedQuote q dc x), CACHE_QUOTES_TTL env)]\<rparr>) = Inr run'"
      from Cons.IH [OF this] True show ?thesis
        by (auto simp: dom_update)
    qed
  qed
qed

lemma addDerived_distinct:
  "addDerivedCurrencies env ds result s q dcs run = Inr run' \<Longrightarrow>
     distinct (map fst (responseOf run)) \<Longrightarrow> distinct (map fst (responseOf run'))"
proof (induction dcs arbitrary: run)
  case Nil
  then show ?case by simp
next
  case (Cons dc dcs)
  show ?case
  proof (cases "s = DEFAULT_CURRENCY env @ rootCurrency dc")
    case False
    then show ?thesis using Cons by auto
  next
    case True
    from Cons.prems(1) True show ?thesis
    proof (rule addDerived_Cons_root)
      fix rootQuote x
      assume "addDerivedCurrencies env ds result s q dcs
       (run\<lparr>responseOf := AList.update (DEFAULT_CURRENCY env @ derived_currency dc)
                (derivedQuote q dc x) (responseOf run),
             cacheWrites := cacheWrites run @
                [(getQuoteKey env ds (DEFAULT_CURRENCY env @ derived_currency dc),
                  JSON_stringify env (derivedQuote q dc x), CACHE_QUOTES_TTL env)]\<rparr>) = Inr run'"
      from Cons.IH [OF this] Cons.prems(2) show ?thesis
        by (simp add: distinct_update)
    qed
  qed
qed


lemma addDerived_writes:
  "addDerivedCurrencies env ds result s q dcs run = Inr run' \<Longrightarrow>
     \<exists>ws. cacheWrites run' = cacheWrites run @ ws \<and>
          (\<forall>w \<in> set ws. snd (snd w) = CACHE_QUOTES_TTL env) \<and>
          marketDataUpdates run' = marketDataUpdates run"
proof (induction dcs arbitrary: run)
  case Nil
  then show ?case by simp
next
  case (Cons dc dcs)
  show ?case
  proof (cases "s = DEFAULT_CURRENCY env @ rootCurrency dc")
    case False
    then show ?thesis using Cons by auto
  next
    case True
    from Cons.prems(1) True show ?thesis
    proof (rule addDerived_Cons_root)
      fix rootQuote x
      assume "addDerivedCurrencies env ds result s q dcs
       (run\<lparr>responseOf := AList.update (DEFAULT_CURRENCY env @ derived_currency dc)
                (derivedQuote q dc x) (responseOf run),
             cacheWrites := cacheWrites run @
                [(getQuoteKey env ds (DEFAULT_CURRENCY env @ derived_currency dc),
                  JSON_stringify env (derivedQuote q dc x), CACHE_QUOTES_TTL env)]\<rparr>) = Inr run'"
      from Cons.IH [OF this] show ?thesis
        by auto
    qed
  qed
qed


lemma set_mergedSymbols:
  "set (mergedSymbols env keys) =
     {s \<in> set keys. s \<notin> set (skippedSymbols env)} \<union>
     (\<lambda>dc. DEFAULT_CURRENCY env @ derived_currency dc) `
       {dc \<in> set (DERIVED_CURRENCIES env).
          DEFAULT_CURRENCY env @ rootCurrency dc \<in> set keys \<and>
          DEFAULT_CURRENCY env @ rootCurrency dc \<notin> set (skippedSymbols env)}"
  by (auto simp: mergedSymbols_def)


lemma mergeEntries_Cons_merged:
  assumes "mergeEntries env ds result ((s, q) # entries) run = Inr run'"
    and "s \<notin> set (skippedSymbols env)"
  obtains run1 where
    "addDerivedCurrencies env ds result s q (DERIVED_CURRENCIES env)
       (run\<lparr>responseOf := AList.update s q (responseOf run),
             cacheWrites := cacheWrites run @
               [(getQuoteKey env ds s, JSON_stringify env q, CACHE_QUOTES_TTL env)]\<rparr>) = Inr run1"
    "mergeEntries env ds result entries run1 = Inr run'"
  using assms by (auto split: sum.splits)


lemma mergeEntries_keys:
  "mergeEntries env ds result entries run = Inr run' \<Longrightarrow>
     fst ` set (responseOf run') =
       fst ` set (responseOf run) \<union> set (mergedSymbols env (map fst entries))"
proof (induction entries arbitrary: run)
  case Nil
  then show ?case by (simp add: mergedSymbols_def)
next
  case (Cons entry entries)
  obtain s q where e: "entry = (s, q)" by (cases entry)
  show ?case
  proof (cases "s \<in> set (skippedSymbols env)")
    case True
    then show ?thesis
      using Cons.prems(1) Cons.IH by (auto simp: e set_mergedSymbols)
  next
    case False
    from Cons.prems(1) [unfolded e] False show ?thesis
    proof (rule mergeEntries_Cons_merged)
      fix run1
      assume a: "addDerivedCurrencies env ds result s q (DERIVED_CURRENCIES env)
         (run\<lparr>responseOf := AList.update s q (responseOf run),
               cacheWrites := cacheWrites run @
                 [(getQuoteKey env ds s, JSON_stringify env q, CACHE_QUOTES_TTL env)]\<rparr>) = Inr run1"
        and m: "mergeEntries env ds result entries run1 = Inr run'"
      have "fst ` set (responseOf run1) = insert s (fst ` set (responseOf run)) \<union>
          (\<lambda>dc. DEFAULT_CURRENCY env @ derived_currency dc) `
              {dc \<in> set (DERIVED_CURRENCIES env). s = DEFAULT_CURRENCY env @ rootCurrency dc}"
        using addDerived_keys [OF a] by (simp add: dom_update)
      with Cons.IH [OF m] False show ?thesis
        by (auto simp: e set_mergedSymbols)
    qed
  qed
qed

lemma mergeEntries_distinct:
  "mergeEntries env ds result entries run = Inr run' \<Longrightarrow>
     distinct (map fst (responseOf run)) \<Longrightarrow> distinct (map fst (responseOf run'))"
proof (induction entries arbitrary: run)
  case Nil
  then show ?case by simp
next
  case (Cons entry entries)
  obtain s q where e: "entry = (s, q)" by (cases entry)
  show ?case
  proof (cases "s \<in> set (skippedSymbols env)")
    case True
    then show ?thesis
      using Cons.prems Cons.IH by (simp add: e)
  next
    case False
    from Cons.prems(1) [unfolded e] False show ?thesis
    proof (rule mergeEntries_Cons_merged)
      fix run1
      assume a: "addDerivedCurrencies env ds result s q (DERIVED_CURRENCIES env)
         (run\<lparr>responseOf := AList.update s q (responseOf run),
               cacheWrites := cacheWrites run @
                 [(getQuoteKey env ds s, JSON_stringify env q, CACHE_QUOTES_TTL env)]\<rparr>) = Inr run1"
        and m: "mergeEntries env ds result entries run1 = Inr run'"
      have "distinct (map fst (responseOf run1))"
        using addDerived_distinct [OF a] Cons.prems(2) by (simp add: distinct_update)
      with Cons.IH [OF m] show ?thesis by simp
    qed
  qed
qed

lemma mergeEntries_writes:
  "mergeEntries env ds result entries run = Inr run' \<Longrightarrow>
     \<exists>ws. cacheWrites run' = cacheWrites run @ ws \<and>
          (\<forall>w \<in> set ws. snd (snd w) = CACHE_QUOTES_TTL env) \<and>
          (\<forall>(s, q) \<in> set entries. s \<notin> set (skippedSymbols env) \<longrightarrow>
             (getQuoteKey env ds s, JSON_stringify env q, CACHE_QUOTES_TTL env) \<in> set ws) \<and>
          marketDataUpdates run' = marketDataUpdates run"
proof (induction entries arbitrary: run)
  case Nil
  then show ?case by simp
next
  case (Cons entry entries)
  obtain s q where e: "entry = (s, q)" by (cases entry)
  show ?case
  proof (cases "s \<in> set (skippedSymbols env)")
    case True
    then show ?thesis
      using Cons.prems Cons.IH [of run] by (simp add: e)
  next
    case False
    from Cons.prems(1) [unfolded e] False show ?thesis
    proof (rule mergeEntries_Cons_merged)
      fix run1
      assume a: "addDerivedCurrencies env ds result s q (DERIVED_CURRENCIES env)
         (run\<lparr>responseOf := AList.update s q (responseOf run),
               cacheWrites := cacheWrites run @
                 [(getQuoteKey env ds s, JSON_stringify env q, CACHE_QUOTES_TTL env)]\<rparr>) = Inr run1"
        and m: "mergeEntries env ds result entries run1 = Inr run'"
      from addDerived_writes [OF a] obtain ws1 where
        w1: "cacheWrites run1 = cacheWrites run @
               (getQuoteKey env ds s, JSON_stringify env q, CACHE_QUOTES_TTL env) # ws1"
          "\<forall>w \<in> set ws1. snd (snd w) = CACHE_QUOTES_TTL env"
          "marketDataUpdates run1 = marketDataUpdates run"
        by auto
      from Cons.IH [OF m] obtain ws2 where
        w2: "cacheWrites run' = cacheWrites run1 @ ws2"
          "\<forall>w \<in> set ws2. snd (snd w) = CACHE_QUOTES_TTL env"
          "\<forall>(s, q) \<in> set entries. s \<notin> set (skippedSymbols env) \<longrightarrow>
             (getQuoteKey env ds s, JSON_stringify env q, CACHE_QUOTES_TTL env) \<in> set ws2"
          "marketDataUpdates run' = marketDataUpdates run1"
        by auto
      show ?thesis
        using w1 w2
        by (intro exI [of _ "(getQuoteKey env ds s, JSON_stringify env q, CACHE_QUOTES_TTL env) # ws1 @ ws2"])
           (auto simp: e)
    qed
  qed
qed







lemma onFulfilled_Inr:
  assumes "onFulfilled env ds now result run = Inr run'"
  obtains run1 where
    "mergeEntries env ds result (Object_entries result) run = Inr run1"
    "run' = run1\<lparr>marketDataUpdates :=
              marketDataUpdates run1 @ [intradayData env now (responseOf run1)]\<rparr>"
  using assms by (auto simp: onFulfilled_def Let_def split: sum.splits)



lemma onFulfilled_keys:
  "onFulfilled env ds now result run = Inr run' \<Longrightarrow>
     fst ` set (responseOf run') =
       fst ` set (responseOf run) \<union> set (mergedSymbols env (map fst (Object_entries result)))"
  by (erule onFulfilled_Inr) (simp add: mergeEntries_keys)

lemma onFulfilled_distinct:
  "onFulfilled env ds now result run = Inr run' \<Longrightarrow>
     distinct (map fst (responseOf run)) \<Longrightarrow> distinct (map fst (responseOf run'))"
  by (erule onFulfilled_Inr) (simp add: mergeEntries_distinct)


lemma onFulfilled_updates:
  assumes "onFulfilled env ds now result run = Inr run'"
  shows "marketDataUpdates run' =
           marketDataUpdates run @ [intradayData env now (responseOf run')]"
proof -
  from assms obtain run1 where
    m: "mergeEntries env ds result (Object_entries result) run = Inr run1"
    and r: "run' = run1\<lparr>marketDataUpdates :=
              marketDataUpdates run1 @ [intradayData env now (responseOf run1)]\<rparr>"
    by (rule onFulfilled_Inr)
  from mergeEntries_writes [OF m] r show ?thesis by auto
qed

section \<open>The callbacks of a call\<close>

lemma settle_Cons_Inr:
  assumes "settle env t resolvedAt ((i, request) # rest) run = Inr run'"
  obtains result run1 where
    "provider_getQuotes (request_provider request) t (symbolsChunk request) = Inr result"
    "onFulfilled env (request_dataSource request) (Date (resolvedAt i)) result run = Inr run1"
    "settle env t resolvedAt rest run1 = Inr run'"
  using assms by (auto split: sum.splits)

lemma upstreamSymbols_Cons:
  "upstreamSymbols env t (request # requests) =
     (case provider_getQuotes (request_provider request) t (symbolsChunk request) of
        Inl e \<Rightarrow> []
      | Inr result \<Rightarrow> mergedSymbols env (map fst (Object_entries result)))
     @ upstreamSymbols env t requests"
  by (simp add: upstreamSymbols_def)

lemma in_upstreamSymbols:
  "k \<in> set (upstreamSymbols env t requests) \<longleftrightarrow>
     (\<exists>request \<in> set requests. \<exists>result.
        provider_getQuotes (request_provider request) t (symbolsChunk request) = Inr result \<and>
        k \<in> set (mergedSymbols env (map fst (Object_entries result))))"
proof (induction requests)
  case Nil
  then show ?case by (simp add: upstreamSymbols_def)
next
  case (Cons request requests)
  show ?case
    by (cases "provider_getQuotes (request_provider request) t (symbolsChunk request)")
       (auto simp: upstreamSymbols_Cons Cons.IH)
qed


lemma settle_keys:
  "settle env t resolvedAt order run = Inr run' \<Longrightarrow>
     fst ` set (responseOf run') =
       fst ` set (responseOf run) \<union> set (upstreamSymbols env t (map snd order))"
proof (induction order arbitrary: run)
  case Nil
  then show ?case by (simp add: upstreamSymbols_def)
next
  case (Cons x order)
  obtain i request where x: "x = (i, request)" by (cases x)
  from Cons.prems(1) [unfolded x] show ?case
  proof (rule settle_Cons_Inr)
    fix result run1
    assume p: "provider_getQuotes (request_provider request) t (symbolsChunk request) = Inr result"
      and f: "onFulfilled env (request_dataSource request) (Date (resolvedAt i)) result run = Inr run1"
      and s: "settle env t resolvedAt order run1 = Inr run'"
    have "set (upstreamSymbols env t (map snd (x # order))) =
            set (mergedSymbols env (map fst (Object_entries result))) \<union>
            set (upstreamSymbols env t (map snd order))"
      using p by (simp add: upstreamSymbols_Cons x)
    then show ?thesis
      using Cons.IH [OF s] onFulfilled_keys [OF f] by auto
  qed
qed

lemma settle_distinct:
  "settle env t resolvedAt order run = Inr run' \<Longrightarrow>
     distinct (map fst (responseOf run)) \<Longrightarrow> distinct (map fst (responseOf run'))"
proof (induction order arbitrary: run)
  case Nil
  then show ?case by simp
next
  case (Cons x order)
  obtain i request where x: "x = (i, request)" by (cases x)
  from Cons.prems(1) [unfolded x] show ?case
  proof (rule settle_Cons_Inr)
    fix result run1
    assume f: "onFulfilled env (request_dataSource request) (Date (resolvedAt i)) result run = Inr run1"
      and s: "settle env t resolvedAt order run1 = Inr run'"
    show ?thesis
      using Cons.IH [OF s] onFulfilled_distinct [OF f] Cons.prems(2) by simp
  qed
qed




lemma resolutionOrder_set:
  "set (resolutionOrder resolvedAt requests) = set (enumerate 0 requests)"
  by (simp add: resolutionOrder_def)

lemma resolutionOrder_length:
  "length (resolutionOrder resolvedAt requests) = length requests"
  by (simp add: resolutionOrder_def)

lemma resolutionOrder_requests:
  "snd ` set (resolutionOrder resolvedAt requests) = set requests"
proof -
  have "snd ` set (enumerate 0 requests) = set (map snd (enumerate 0 requests))"
    by (simp only: set_map)
  also have "\<dots> = set requests"
    by (simp only: map_snd_enumerate)
  finally show ?thesis
    unfolding resolutionOrder_set .
qed

lemma upstreamSymbols_resolutionOrder:
  "set (upstreamSymbols env t (map snd (resolutionOrder resolvedAt requests))) =
     set (upstreamSymbols env t requests)"
proof -
  have "set (map snd (resolutionOrder resolvedAt requests)) = set requests"
    using resolutionOrder_requests [of resolvedAt requests] by simp
  then show ?thesis
    by (auto simp: in_upstreamSymbols)
qed

lemma cachedQuotes_Cons:
  "cachedQuotes env useCache (item # items) s =
     (case (if useCache \<and> symbol item = s then cachedQuote env item else None) of
        None \<Rightarrow> cachedQuotes env useCache items s
      | Some q \<Rightarrow> q # cachedQuotes env useCache items s)"
  unfolding cachedQuotes_def by (simp split: option.splits)

lemma cachedQuotes_Nil: "cachedQuotes env useCache [] s = []"
  by (simp add: cachedQuotes_def)

lemma getItemsFromCache_lookup:
  "map_of (fst (getItemsFromCache env useCache items response acc)) s =
     (if cachedQuotes env useCache items s = [] then map_of response s
      else Some (last (cachedQuotes env useCache items s)))"
proof (induction items arbitrary: response acc)
  case Nil
  then show ?case by (simp add: cachedQuotes_Nil)
next
  case (Cons item items)
  show ?case
  proof (cases "if useCache then cachedQuote env item else None")
    case None
    then have "cachedQuotes env useCache (item # items) s = cachedQuotes env useCache items s"
      by (auto simp: cachedQuotes_Cons split: if_splits)
    then show ?thesis
      using None Cons.IH by simp
  next
    case (Some q)
    then have uc: "useCache" and cq: "cachedQuote env item = Some q"
      by (auto split: if_splits)
    have step: "fst (getItemsFromCache env useCache (item # items) response acc) =
        fst (getItemsFromCache env useCache items (AList.update (symbol item) q response) acc)"
      using Some by simp
    show ?thesis
    proof (cases "symbol item = s")
      case True
      then have "cachedQuotes env useCache (item # items) s = q # cachedQuotes env useCache items s"
        using uc cq by (simp add: cachedQuotes_Cons)
      then show ?thesis
        unfolding step Cons.IH using True by (simp add: update_conv')
    next
      case False
      then have "cachedQuotes env useCache (item # items) s = cachedQuotes env useCache items s"
        by (simp add: cachedQuotes_Cons)
      then show ?thesis
        unfolding step Cons.IH using False by (simp add: update_conv')
    qed
  qed
qed


lemma getItemsFromCache_distinct:
  "distinct (map fst response) \<Longrightarrow>
     distinct (map fst (fst (getItemsFromCache env useCache items response acc)))"
proof (induction items arbitrary: response acc)
  case Nil
  then show ?case by simp
next
  case (Cons item items)
  show ?case
  proof (cases "if useCache then cachedQuote env item else None")
    case None
    then show ?thesis
      using Cons by (auto split: if_splits)
  next
    case (Some q)
    then show ?thesis
      using Cons.IH [of "AList.update (symbol item) q response"] Cons.prems
      by (auto simp: distinct_update split: if_splits)
  qed
qed

lemma initialResponse_distinct: "distinct (map fst (initialResponse env items))"
  by (simp add: initialResponse_def)

lemma initialResponse_lookup:
  "map_of (initialResponse env items) s =
     (if s = DEFAULT_CURRENCY env @ ''USX'' \<and> DEFAULT_CURRENCY env @ ''USX'' \<in> symbol ` set items
      then Some \<lparr>currency = ''USX'', quote_dataSource = getDataSourceForExchangeRates env,
                 marketPrice = Num 100, marketState = ''open''\<rparr>
      else None)"
proof (cases "DEFAULT_CURRENCY env @ ''USX'' \<in> symbol ` set items")
  case True
  then have "list_ex (\<lambda>item. symbol item = DEFAULT_CURRENCY env @ ''USX'') items"
    by (auto simp: list_ex_iff)
  then show ?thesis
    using True by (simp add: initialResponse_def)
next
  case False
  then have "\<not> list_ex (\<lambda>item. symbol item = DEFAULT_CURRENCY env @ ''USX'') items"
    unfolding list_ex_iff by (metis image_eqI)
  then show ?thesis
    using False by (simp add: initialResponse_def)
qed

lemma settle_append:
  "settle env t resolvedAt (xs @ ys) run =
     (case settle env t resolvedAt xs run of
        Inl e \<Rightarrow> Inl e
      | Inr run1 \<Rightarrow> settle env t resolvedAt ys run1)"
proof (induction xs arbitrary: run)
  case Nil
  then show ?case by simp
next
  case (Cons x xs)
  obtain i request where x: "x = (i, request)" by (cases x)
  show ?case
    by (simp add: x Cons.IH split: sum.splits)
qed

lemma settle_updates:
  "settle env t resolvedAt order run = Inr run' \<Longrightarrow>
     \<exists>us. marketDataUpdates run' = marketDataUpdates run @ us \<and> length us = length order"
proof (induction order arbitrary: run)
  case Nil
  then show ?case by simp
next
  case (Cons x order)
  obtain i request where x: "x = (i, request)" by (cases x)
  from Cons.prems(1) [unfolded x] show ?case
  proof (rule settle_Cons_Inr)
    fix result run1
    assume f: "onFulfilled env (request_dataSource request) (Date (resolvedAt i)) result run = Inr run1"
      and s: "settle env t resolvedAt order run1 = Inr run'"
    from Cons.IH [OF s] obtain us where
      "marketDataUpdates run' = marketDataUpdates run1 @ us" "length us = length order"
      by blast
    then show ?thesis
      using onFulfilled_updates [OF f]
      by (intro exI [of _ "intradayData env (Date (resolvedAt i)) (responseOf run1) # us"]) simp
  qed
qed

lemma settle_snoc_update:
  assumes "settle env t resolvedAt (xs @ [(i, request)]) run = Inr run'"
  shows "length (marketDataUpdates run') = length (marketDataUpdates run) + length xs + 1 \<and>
         marketDataUpdates run' ! (length (marketDataUpdates run) + length xs) =
           intradayData env (Date (resolvedAt i)) (responseOf run')"
proof -
  from assms obtain run0 where
    s0: "settle env t resolvedAt xs run = Inr run0"
    and s1: "settle env t resolvedAt [(i, request)] run0 = Inr run'"
    by (auto simp: settle_append split: sum.splits)
  from s1 obtain result where
    f: "onFulfilled env (request_dataSource request) (Date (resolvedAt i)) result run0 = Inr run'"
    by (auto split: sum.splits)
  from settle_updates [OF s0] obtain us where
    us: "marketDataUpdates run0 = marketDataUpdates run @ us" "length us = length xs"
    by blast
  have "marketDataUpdates run' =
          (marketDataUpdates run @ us) @ [intradayData env (Date (resolvedAt i)) (responseOf run')]"
    using onFulfilled_updates [OF f] us by simp
  then show ?thesis
    using us(2) by (simp add: nth_append)
qed

lemma set_map_filter:
  "set (List.map_filter f xs) = {y. \<exists>x \<in> set xs. f x = Some y}"
  by (induction xs) (auto split: option.splits)

lemma intradayData_mem:
  "u \<in> set (intradayData env now response) \<longleftrightarrow>
     (\<exists>s q. map_of response s = Some q \<and> isNumber (marketPrice q) \<and>
            greaterThanZero (marketPrice q) \<and> marketState q = ''open'' \<and>
            u = \<lparr>update_symbol = s, update_dataSource = quote_dataSource q,
                 update_date = getStartOfUtcDate env now,
                 update_marketPrice = marketPrice q, update_state = ''INTRADAY''\<rparr>)"
proof
  assume "u \<in> set (intradayData env now response)"
  then show "\<exists>s q. map_of response s = Some q \<and> isNumber (marketPrice q) \<and>
            greaterThanZero (marketPrice q) \<and> marketState q = ''open'' \<and>
            u = \<lparr>update_symbol = s, update_dataSource = quote_dataSource q,
                 update_date = getStartOfUtcDate env now,
                 update_marketPrice = marketPrice q, update_state = ''INTRADAY''\<rparr>"
    unfolding intradayData_def set_map_filter
    by (auto split: option.splits if_splits)
next
  assume "\<exists>s q. map_of response s = Some q \<and> isNumber (marketPrice q) \<and>
            greaterThanZero (marketPrice q) \<and> marketState q = ''open'' \<and>
            u = \<lparr>update_symbol = s, update_dataSource = quote_dataSource q,
                 update_date = getStartOfUtcDate env now,
                 update_marketPrice = marketPrice q, update_state = ''INTRADAY''\<rparr>"
  then obtain s q where sq: "map_of response s = Some q" "isNumber (marketPrice q)"
    "greaterThanZero (marketPrice q)" "marketState q = ''open''"
    "u = \<lparr>update_symbol = s, update_dataSource = quote_dataSource q,
                 update_date = getStartOfUtcDate env now,
                 update_marketPrice = marketPrice q, update_state = ''INTRADAY''\<rparr>"
    by blast
  have "s \<in> set (Object_keys response)"
    using map_of_SomeD [OF sq(1)] by (force simp: Object_keys_def)
  then show "u \<in> set (intradayData env now response)"
    unfolding intradayData_def set_map_filter using sq
    by (intro CollectI bexI [of _ s]) simp_all
qed

lemma intradayData_symbols:
  "map update_symbol (intradayData env now response) =
     filter (\<lambda>s. case map_of response s of
                    None \<Rightarrow> False
                  | Some q \<Rightarrow> isNumber (marketPrice q) \<and> greaterThanZero (marketPrice q) \<and>
                              marketState q = ''open'')
       (Object_keys response)"
proof -
  have "\<And>keys. map update_symbol
     (List.map_filter
       (\<lambda>symb. case map_of response symb of
                 None \<Rightarrow> None
               | Some q \<Rightarrow>
                   if isNumber (marketPrice q) \<and> greaterThanZero (marketPrice q) \<and>
                      marketState q = ''open''
                   then Some \<lparr>update_symbol = symb, update_dataSource = quote_dataSource q,
                              update_date = getStartOfUtcDate env now,
                              update_marketPrice = marketPrice q, update_state = ''INTRADAY''\<rparr>
                   else None) keys) =
     filter (\<lambda>s. case map_of response s of
                    None \<Rightarrow> False
                  | Some q \<Rightarrow> isNumber (marketPrice q) \<and> greaterThanZero (marketPrice q) \<and>
                              marketState q = ''open'') keys"
  proof -
    fix keys show "?thesis keys"
      by (induction keys) (auto simp: map_filter_simps split: option.splits)
  qed
  then show ?thesis
    by (simp add: intradayData_def)
qed

lemma intradayData_distinct:
  "distinct (map fst response) \<Longrightarrow> distinct (map update_symbol (intradayData env now response))"
  by (simp add: intradayData_symbols Object_keys_def)

lemma findDataProvider_updateMany:
  "findDataProvider (env\<lparr>updateMany := f\<rparr>) providers name = findDataProvider env providers name"
  by (induction providers) (simp_all cong: option.case_cong if_cong)

lemma getDataProvider_updateMany:
  "getDataProvider (env\<lparr>updateMany := f\<rparr>) name = getDataProvider env name"
  by (simp add: getDataProvider_def findDataProvider_updateMany)

lemma keepSymbol_updateMany:
  "keepSymbol (env\<lparr>updateMany := f\<rparr>) p user s = keepSymbol env p user s"
  unfolding keepSymbol_def by simp

lemma symbolsOf_updateMany:
  "symbolsOf (env\<lparr>updateMany := f\<rparr>) p user ids = symbolsOf env p user ids"
  unfolding symbolsOf_def keepSymbol_updateMany ..

lemma requestsOfGroups_updateMany:
  "requestsOfGroups (env\<lparr>updateMany := f\<rparr>) user groups = requestsOfGroups env user groups"
proof (induction groups)
  case Nil
  then show ?case by simp
next
  case (Cons g groups)
  obtain ds ids where g: "g = (ds, ids)" by (cases g)
  show ?case
    by (simp add: g Cons.IH getDataProvider_updateMany symbolsOf_updateMany
        cong: sum.case_cong option.case_cong)
qed

lemma getItemsFromCache_updateMany:
  "getItemsFromCache (env\<lparr>updateMany := f\<rparr>) useCache items response acc =
     getItemsFromCache env useCache items response acc"
  by (induction items arbitrary: response acc)
     (simp_all add: cachedQuote_def cong: option.case_cong if_cong)

lemma initialResponse_updateMany:
  "initialResponse (env\<lparr>updateMany := f\<rparr>) items = initialResponse env items"
  by (simp add: initialResponse_def getDataSourceForExchangeRates_def)

lemma addDerived_updateMany:
  "addDerivedCurrencies (env\<lparr>updateMany := f\<rparr>) ds result s q dcs run =
     addDerivedCurrencies env ds result s q dcs run"
proof (induction dcs arbitrary: run)
  case Nil
  then show ?case by simp
next
  case (Cons dc dcs)
  show ?case
  proof (cases "s = DEFAULT_CURRENCY env @ rootCurrency dc")
    case True
    show ?thesis
      unfolding addDerivedCurrencies.simps Let_def Cons.IH
      by (simp cong: option.case_cong sum.case_cong)
  next
    case False
    then show ?thesis
      using Cons.IH by simp
  qed
qed

lemma mergeEntries_updateMany:
  "mergeEntries (env\<lparr>updateMany := f\<rparr>) ds result entries run =
     mergeEntries env ds result entries run"
proof (induction entries arbitrary: run)
  case Nil
  then show ?case by simp
next
  case (Cons entry entries)
  obtain s q where e: "entry = (s, q)" by (cases entry)
  show ?case
    by (simp add: e Cons.IH addDerived_updateMany skippedSymbols_def
        cong: sum.case_cong if_cong)
qed

lemma intradayData_updateMany:
  "intradayData (env\<lparr>updateMany := f\<rparr>) now response = intradayData env now response"
  by (simp add: intradayData_def cong: option.case_cong if_cong)

lemma onFulfilled_updateMany:
  "onFulfilled (env\<lparr>updateMany := f\<rparr>) ds now result run = onFulfilled env ds now result run"
  by (simp add: onFulfilled_def mergeEntries_updateMany intradayData_updateMany Let_def
      split: sum.splits)

lemma settle_updateMany:
  "settle (env\<lparr>updateMany := f\<rparr>) t resolvedAt order run = settle env t resolvedAt order run"
proof (induction order arbitrary: run)
  case Nil
  then show ?case by simp
next
  case (Cons x order)
  obtain i request where x: "x = (i, request)" by (cases x)
  show ?case
    by (simp add: x Cons.IH onFulfilled_updateMany cong: sum.case_cong)
qed

lemma getQuotes_run_updateMany:
  "getQuotes_run (env\<lparr>updateMany := f\<rparr>) resolvedAt items requestTimeout useCache user =
     getQuotes_run env resolvedAt items requestTimeout useCache user"
  by (simp add: getQuotes_run_def getItemsFromCache_updateMany initialResponse_updateMany
      requestsOfGroups_updateMany settle_updateMany
      cong: sum.case_cong option.case_cong prod.case_cong)

lemma runAfter_total:
  assumes "getQuotes_run env resolvedAt items requestTimeout useCache user = Some (Inr run)"
  shows "runAfter env resolvedAt items requestTimeout useCache (upstreamRequests run)
           (length (upstreamRequests run)) = Inr run"
proof -
  from getQuotes_run_returns [OF assms] show ?thesis
    by (auto simp: runAfter_def resolutionOrder_length)
qed

lemma runAfter_distinct:
  "runAfter env resolvedAt items requestTimeout useCache requests k = Inr run_k \<Longrightarrow>
     distinct (map fst (responseOf run_k))"
  unfolding runAfter_def
  by (erule settle_distinct) (simp add: getItemsFromCache_distinct initialResponse_distinct)

lemma runAfter_step:
  assumes "runAfter env resolvedAt items requestTimeout useCache requests n = Inr run"
    and "k < n" and "n \<le> length requests"
  shows "\<exists>run_k. runAfter env resolvedAt items requestTimeout useCache requests (Suc k) = Inr run_k \<and>
           length (marketDataUpdates run_k) = Suc k \<and>
           marketDataUpdates run ! k = marketDataUpdates run_k ! k \<and>
           marketDataUpdates run_k ! k =
             intradayData env (Date (resolvedAt (fst (resolutionOrder resolvedAt requests ! k))))
               (responseOf run_k)"
proof -
  let ?order = "resolutionOrder resolvedAt requests"
  let ?run0 = "\<lparr>responseOf = fst (getItemsFromCache env useCache items (initialResponse env items) []),
        upstreamRequests = requests, cacheWrites = [], marketDataUpdates = []\<rparr>"
  have len: "length ?order = length requests"
    by (rule resolutionOrder_length)
  have kl: "k < length ?order" using assms(2,3) len by simp
  define rest where "rest = drop (Suc k) (take n ?order)"
  have "take (Suc k) (take n ?order) = take (Suc k) ?order"
    using assms(2) by (simp add: min_def)
  then have split: "take n ?order = take (Suc k) ?order @ rest"
    unfolding rest_def using append_take_drop_id [of "Suc k" "take n ?order"] by metis
  have "settle env requestTimeout resolvedAt (take (Suc k) ?order @ rest) ?run0 = Inr run"
    using assms(1) unfolding runAfter_def split [symmetric] .
  then obtain run_k where
    rk: "settle env requestTimeout resolvedAt (take (Suc k) ?order) ?run0 = Inr run_k"
    and rest: "settle env requestTimeout resolvedAt rest run_k = Inr run"
    by (auto simp: settle_append split: sum.splits)
  obtain i request where ir: "?order ! k = (i, request)" by (cases "?order ! k")
  have tk: "take (Suc k) ?order = take k ?order @ [(i, request)]"
    using kl ir by (simp add: take_Suc_conv_app_nth)
  from settle_snoc_update [OF rk [unfolded tk]] kl
  have a: "length (marketDataUpdates run_k) = Suc k"
    and b: "marketDataUpdates run_k ! k = intradayData env (Date (resolvedAt i)) (responseOf run_k)"
    by simp_all
  from settle_updates [OF rest] obtain us where
    "marketDataUpdates run = marketDataUpdates run_k @ us" by blast
  then have c: "marketDataUpdates run ! k = marketDataUpdates run_k ! k"
    using a by (simp add: nth_append)
  show ?thesis
    using rk a b c ir by (auto simp: runAfter_def)
qed




lemma response_keys:
  assumes "getQuotes_run env resolvedAt items requestTimeout useCache user = Some (Inr run)"
    and "s \<in> fst ` set (responseOf run)"
  shows "cachedQuotes env useCache items s \<noteq> [] \<or>
         (s = DEFAULT_CURRENCY env @ ''USX'' \<and> s \<in> symbol ` set items) \<or>
         s \<in> set (upstreamSymbols env requestTimeout (upstreamRequests run))"
proof -
  let ?r0 = "fst (getItemsFromCache env useCache items (initialResponse env items) [])"
  let ?order = "resolutionOrder resolvedAt (upstreamRequests run)"
  from getQuotes_run_returns [OF assms(1)] have
    s: "settle env requestTimeout resolvedAt ?order
          \<lparr>responseOf = ?r0, upstreamRequests = upstreamRequests run, cacheWrites = [],
           marketDataUpdates = []\<rparr> = Inr run"
    by auto
  from settle_keys [OF s] assms(2) have
    "s \<in> fst ` set ?r0 \<or> s \<in> set (upstreamSymbols env requestTimeout (map snd ?order))"
    by auto
  then show ?thesis
  proof
    assume "s \<in> fst ` set ?r0"
    then have "map_of ?r0 s \<noteq> None"
      by (simp add: map_of_eq_None_iff)
    then show ?thesis
      by (auto simp: getItemsFromCache_lookup initialResponse_lookup split: if_splits)
  next
    assume "s \<in> set (upstreamSymbols env requestTimeout (map snd ?order))"
    then show ?thesis
      using upstreamSymbols_resolutionOrder [of env requestTimeout resolvedAt "upstreamRequests run"]
      by simp
  qed
qed
section \<open>Intraday prices\<close>

text \<open>
  C7. In a call that returns, \<^verbatim>\<open>updateMany\<close> is called once per upstream request, in the order
  in which the requests resolve. The data of the \<open>k\<close>-th call are computed from the response
  as accumulated when the first \<open>k + 1\<close> callbacks have merged their results: they hold, once
  each, exactly the symbols of that response whose \<^verbatim>\<open>marketPrice\<close> is a number greater than 0
  and whose \<^verbatim>\<open>marketState\<close> is \<^verbatim>\<open>'open'\<close>, each with the data source and price of its quote,
  the state \<^verbatim>\<open>'INTRADAY'\<close> and the start of the UTC day of the instant of the callback.
  Whatever \<^verbatim>\<open>updateMany\<close> does, failing included, \<^verbatim>\<open>getQuotes\<close> behaves the same.
\<close>

theorem intraday_prices_persisted:
  assumes "getQuotes_run env resolvedAt items requestTimeout useCache user = Some (Inr run)"
  shows "length (marketDataUpdates run) = length (upstreamRequests run)
     \<and> (\<forall>k < length (upstreamRequests run). \<exists>run_k.
           runAfter env resolvedAt items requestTimeout useCache (upstreamRequests run) (Suc k) =
             Inr run_k \<and>
           marketDataUpdates run ! k =
             intradayData env
               (Date (resolvedAt (fst (resolutionOrder resolvedAt (upstreamRequests run) ! k))))
               (responseOf run_k) \<and>
           distinct (map update_symbol (marketDataUpdates run ! k)) \<and>
           (\<forall>u. u \<in> set (marketDataUpdates run ! k) \<longleftrightarrow>
              (\<exists>s q. map_of (responseOf run_k) s = Some q \<and> isNumber (marketPrice q) \<and>
                 greaterThanZero (marketPrice q) \<and> marketState q = ''open'' \<and>
                 u = \<lparr>update_symbol = s, update_dataSource = quote_dataSource q,
                      update_date = getStartOfUtcDate env
                        (Date (resolvedAt (fst (resolutionOrder resolvedAt (upstreamRequests run) ! k)))),
                      update_marketPrice = marketPrice q, update_state = ''INTRADAY''\<rparr>)))
     \<and> (\<forall>anyUpdateMany.
           getQuotes (env\<lparr>updateMany := anyUpdateMany\<rparr>) resolvedAt items requestTimeout useCache user =
           getQuotes env resolvedAt items requestTimeout useCache user)"
proof -
  let ?requests = "upstreamRequests run"
  note total = runAfter_total [OF assms]
  have A: "length (marketDataUpdates run) = length ?requests"
  proof -
    from total have "settle env requestTimeout resolvedAt (resolutionOrder resolvedAt ?requests)
       \<lparr>responseOf = fst (getItemsFromCache env useCache items (initialResponse env items) []),
        upstreamRequests = ?requests, cacheWrites = [], marketDataUpdates = []\<rparr> = Inr run"
      by (simp add: runAfter_def resolutionOrder_length)
    from settle_updates [OF this] show ?thesis
      by (auto simp: resolutionOrder_length)
  qed
  have B: "\<forall>k < length ?requests. \<exists>run_k.
           runAfter env resolvedAt items requestTimeout useCache ?requests (Suc k) = Inr run_k \<and>
           marketDataUpdates run ! k =
             intradayData env
               (Date (resolvedAt (fst (resolutionOrder resolvedAt ?requests ! k))))
               (responseOf run_k) \<and>
           distinct (map update_symbol (marketDataUpdates run ! k)) \<and>
           (\<forall>u. u \<in> set (marketDataUpdates run ! k) \<longleftrightarrow>
              (\<exists>s q. map_of (responseOf run_k) s = Some q \<and> isNumber (marketPrice q) \<and>
                 greaterThanZero (marketPrice q) \<and> marketState q = ''open'' \<and>
                 u = \<lparr>update_symbol = s, update_dataSource = quote_dataSource q,
                      update_date = getStartOfUtcDate env
                        (Date (resolvedAt (fst (resolutionOrder resolvedAt ?requests ! k)))),
                      update_marketPrice = marketPrice q, update_state = ''INTRADAY''\<rparr>))"
  proof (intro allI impI)
    fix k assume k: "k < length ?requests"
    from runAfter_step [OF total k] obtain run_k where
      rk: "runAfter env resolvedAt items requestTimeout useCache ?requests (Suc k) = Inr run_k"
      and eq: "marketDataUpdates run ! k =
             intradayData env (Date (resolvedAt (fst (resolutionOrder resolvedAt ?requests ! k))))
               (responseOf run_k)"
      by auto
    have d: "distinct (map update_symbol (marketDataUpdates run ! k))"
      unfolding eq by (rule intradayData_distinct) (rule runAfter_distinct [OF rk])
    have m: "\<forall>u. u \<in> set (marketDataUpdates run ! k) \<longleftrightarrow>
              (\<exists>s q. map_of (responseOf run_k) s = Some q \<and> isNumber (marketPrice q) \<and>
                 greaterThanZero (marketPrice q) \<and> marketState q = ''open'' \<and>
                 u = \<lparr>update_symbol = s, update_dataSource = quote_dataSource q,
                      update_date = getStartOfUtcDate env
                        (Date (resolvedAt (fst (resolutionOrder resolvedAt ?requests ! k)))),
                      update_marketPrice = marketPrice q, update_state = ''INTRADAY''\<rparr>)"
      unfolding eq by (intro allI) (rule intradayData_mem)
    show "\<exists>run_k.
           runAfter env resolvedAt items requestTimeout useCache ?requests (Suc k) = Inr run_k \<and>
           marketDataUpdates run ! k =
             intradayData env
               (Date (resolvedAt (fst (resolutionOrder resolvedAt ?requests ! k))))
               (responseOf run_k) \<and>
           distinct (map update_symbol (marketDataUpdates run ! k)) \<and>
           (\<forall>u. u \<in> set (marketDataUpdates run ! k) \<longleftrightarrow>
              (\<exists>s q. map_of (responseOf run_k) s = Some q \<and> isNumber (marketPrice q) \<and>
                 greaterThanZero (marketPrice q) \<and> marketState q = ''open'' \<and>
                 u = \<lparr>update_symbol = s, update_dataSource = quote_dataSource q,
                      update_date = getStartOfUtcDate env
                        (Date (resolvedAt (fst (resolutionOrder resolvedAt ?requests ! k)))),
                      update_marketPrice = marketPrice q, update_state = ''INTRADAY''\<rparr>))"
      by (rule exI [of _ run_k]) (intro conjI rk eq d m)
  qed
  have C: "\<forall>anyUpdateMany.
           getQuotes (env\<lparr>updateMany := anyUpdateMany\<rparr>) resolvedAt items requestTimeout useCache user =
           getQuotes env resolvedAt items requestTimeout useCache user"
    by (simp add: getQuotes_def getQuotes_run_updateMany)
  show ?thesis
    by (intro conjI A B C)
qed

theorem intraday_prices_persisted_witness:
  "getQuotes_run demoEnv demoResolvedAt demoItems None True None = Some (Inr demoRun) \<and>
   length (marketDataUpdates demoRun) = 3 \<and>
   marketDataUpdates demoRun ! 2 = intradayData demoEnv (Date 0) (responseOf demoRun) \<and>
   map update_symbol (marketDataUpdates demoRun ! 2) = [''MSFT'', ''NVDA'', ''AAPL'', ''USDGBp''] \<and>
   getQuotes (demoEnv\<lparr>updateMany := (\<lambda>data. Inr ())\<rparr>) demoResolvedAt demoItems None True None =
     getQuotes demoEnv demoResolvedAt demoItems None True None"
proof -
  note main = intraday_prices_persisted [OF demo_run]
  have len: "length (upstreamRequests demoRun) = 3"
    by (simp add: demoRun_def demoRequests_def)
  have last: "runAfter demoEnv demoResolvedAt demoItems None True (upstreamRequests demoRun) (Suc 2) =
                Inr demoRun"
    using runAfter_total [OF demo_run] len by (simp add: eval_nat_numeral)
  have o: "fst (resolutionOrder demoResolvedAt (upstreamRequests demoRun) ! 2) = 0"
    by (simp add: demoRun_def demo_order)
  have k: "2 < length (upstreamRequests demoRun)"
    using len by simp
  from conjunct1 [OF conjunct2 [OF main], rule_format, OF k] obtain run_k where
    r: "runAfter demoEnv demoResolvedAt demoItems None True (upstreamRequests demoRun) (Suc 2) =
          Inr run_k"
    and e: "marketDataUpdates demoRun ! 2 =
        intradayData demoEnv
          (Date (demoResolvedAt (fst (resolutionOrder demoResolvedAt (upstreamRequests demoRun) ! 2))))
          (responseOf run_k)"
    by blast
  from r last have "run_k = demoRun" by simp
  then have 1: "marketDataUpdates demoRun ! 2 = intradayData demoEnv (Date 0) (responseOf demoRun)"
    using e o by (simp add: demoResolvedAt_def)
  have 2: "map update_symbol (marketDataUpdates demoRun ! 2) = [''MSFT'', ''NVDA'', ''AAPL'', ''USDGBp'']"
    by (simp add: demoRun_def demoUpdate_def)
  have 3: "length (marketDataUpdates demoRun) = 3"
    using conjunct1 [OF main] len by simp
  have 4: "getQuotes (demoEnv\<lparr>updateMany := (\<lambda>data. Inr ())\<rparr>) demoResolvedAt demoItems None True None =
     getQuotes demoEnv demoResolvedAt demoItems None True None"
    using conjunct2 [OF conjunct2 [OF main]] by blast
  show ?thesis
    by (intro conjI demo_run 1 2 3 4)
qed

section \<open>Derived currencies in getQuotes\<close>




section \<open>getHistorical never throws\<close>

lemma rangeQuery_valid:
  "isValid from \<Longrightarrow> isValid to \<Longrightarrow> \<exists>rangeQ. rangeQuery env from to = Inr rangeQ"
  by (cases "from"; cases to) (simp_all add: rangeQuery_def isValid_def)

text \<open>
  C10. \<^verbatim>\<open>getHistorical\<close> never throws: its outcome is always a response. With an empty item
  list or an invalid \<open>from\<close> or \<open>to\<close> date the response is the empty map, no query is sent to
  the database and nothing is logged; if the query that was sent fails, the error is
  logged and the response is still the empty map.
\<close>

theorem getHistorical_never_throws:
  "(\<exists>response. hist_outcome (getHistorical env aItems aGranularity from to) = Inr response)
   \<and> (aItems = [] \<or> \<not> isValid from \<or> \<not> isValid to \<longrightarrow>
        getHistorical env aItems aGranularity from to =
          \<lparr>hist_outcome = Inr [], hist_queries = [], hist_logged = []\<rparr>)
   \<and> (\<forall>q error. q \<in> set (hist_queries (getHistorical env aItems aGranularity from to)) \<and>
          queryRawUnsafe env q = Inl error \<longrightarrow>
        hist_outcome (getHistorical env aItems aGranularity from to) = Inr [] \<and>
        hist_logged (getHistorical env aItems aGranularity from to) = [error])"
proof (cases "aItems = [] \<or> \<not> isValid from \<or> \<not> isValid to")
  case True
  then show ?thesis
    by (simp add: getHistorical_def)
next
  case False
  then obtain rangeQ where r: "rangeQuery env from to = Inr rangeQ"
    using rangeQuery_valid by blast
  show ?thesis
    using False r
    by (auto simp: getHistorical_def Let_def split: sum.splits)
qed

theorem getHistorical_never_throws_witness:
  "getHistorical demoEnv [] None (Date 1) (Date 3) =
     \<lparr>hist_outcome = Inr [], hist_queries = [], hist_logged = []\<rparr> \<and>
   hist_outcome (getHistorical demoEnv [item_of ''YAHOO'' ''AAPL''] None (Date 1) (Date 3)) = Inr [] \<and>
   hist_logged (getHistorical demoEnv [item_of ''YAHOO'' ''AAPL''] None (Date 1) (Date 3)) =
     [Error ''database is down'']"
proof -
  let ?run = "getHistorical demoEnv [item_of ''YAHOO'' ''AAPL''] None (Date 1) (Date 3)"
  have q: "hist_queries ?run \<noteq> []"
    by (simp add: getHistorical_def isValid_def rangeQuery_def Let_def demo_queryRawUnsafe)
  then have mem: "hd (hist_queries ?run) \<in> set (hist_queries ?run)"
    by simp
  have 1: "getHistorical demoEnv [] None (Date 1) (Date 3) =
     \<lparr>hist_outcome = Inr [], hist_queries = [], hist_logged = []\<rparr>"
    using getHistorical_never_throws [of demoEnv "[]" None "Date 1" "Date 3"] by simp
  have 2: "hist_outcome ?run = Inr [] \<and> hist_logged ?run = [Error ''database is down'']"
    using getHistorical_never_throws [of demoEnv "[item_of ''YAHOO'' ''AAPL'']" None "Date 1" "Date 3"]
      mem demo_queryRawUnsafe by blast
  show ?thesis
    using 1 2 by simp
qed

section \<open>Rate limiting of the data endpoints\<close>







subsection \<open>Cache or fetch\<close>





subsection \<open>Premium data providers\<close>

text \<open>
  C6, as amended. In a call that returns, for a user with the subscription type \<^verbatim>\<open>Basic\<close>
  while the subscription feature is enabled: a request to a premium provider holds currency
  symbols only. A symbol of the response that is not a currency symbol was served from the
  cache, or is the USX pair, or was stored from the answer to an upstream request; if that
  request asked for it, its provider is not premium. An item to fetch with a currency symbol
  is requested from the provider of its data source, premium or not, exactly when the
  currency is not a derived one.
\<close>

theorem premium_gating:
  assumes "getQuotes_run env resolvedAt items requestTimeout useCache (Some u) = Some (Inr run)"
    and "subscription_type u = ''Basic''"
    and "ENABLE_FEATURE_SUBSCRIPTION env"
  shows "(\<forall>request \<in> set (upstreamRequests run). isPremium (request_provider request) \<longrightarrow>
            (\<forall>s \<in> set (symbolsChunk request). isCurrency env (getCurrencyFromSymbol env s)))
     \<and> (\<forall>s \<in> fst ` set (responseOf run). \<not> isCurrency env (getCurrencyFromSymbol env s) \<longrightarrow>
            cachedQuotes env useCache items s \<noteq> [] \<or>
            s = DEFAULT_CURRENCY env @ ''USX'' \<or>
            (\<exists>request \<in> set (upstreamRequests run). \<exists>result.
               provider_getQuotes (request_provider request) requestTimeout
                 (symbolsChunk request) = Inr result \<and>
               s \<in> set (mergedSymbols env (map fst (Object_entries result))) \<and>
               (s \<in> set (symbolsChunk request) \<longrightarrow> \<not> isPremium (request_provider request))))
     \<and> (\<forall>item \<in> set (itemsToFetch env useCache items).
            isCurrency env (getCurrencyFromSymbol env (symbol item)) \<longrightarrow>
            (\<exists>dataProvider. getDataProvider env (dataSource item) = Inr dataProvider \<and>
               ((\<exists>request \<in> set (upstreamRequests run).
                   request_dataSource request = dataSource item \<and>
                   symbol item \<in> set (symbolsChunk request)) \<longleftrightarrow>
                \<not> isDerivedCurrency env (getCurrencyFromSymbol env (symbol item)))))"
proof -
  from getQuotes_run_returns [OF assms(1)] have
    sent: "requestsSent env (Some u) useCache items = Some (Inr (upstreamRequests run))"
    by auto
  have kept: "\<not> isPremium (request_provider request)"
    if "request \<in> set (upstreamRequests run)" "s \<in> set (symbolsChunk request)"
      "\<not> isCurrency env (getCurrencyFromSymbol env s)" for request s
    using request_item [OF sent that(1,2)] basic_not_kept [OF assms(2,3) _ that(3)] by blast
  have A: "\<forall>request \<in> set (upstreamRequests run). isPremium (request_provider request) \<longrightarrow>
            (\<forall>s \<in> set (symbolsChunk request). isCurrency env (getCurrencyFromSymbol env s))"
    using kept by blast
  have B: "\<forall>s \<in> fst ` set (responseOf run). \<not> isCurrency env (getCurrencyFromSymbol env s) \<longrightarrow>
            cachedQuotes env useCache items s \<noteq> [] \<or>
            s = DEFAULT_CURRENCY env @ ''USX'' \<or>
            (\<exists>request \<in> set (upstreamRequests run). \<exists>result.
               provider_getQuotes (request_provider request) requestTimeout
                 (symbolsChunk request) = Inr result \<and>
               s \<in> set (mergedSymbols env (map fst (Object_entries result))) \<and>
               (s \<in> set (symbolsChunk request) \<longrightarrow> \<not> isPremium (request_provider request)))"
  proof (intro ballI impI)
    fix s assume s: "s \<in> fst ` set (responseOf run)"
      and n: "\<not> isCurrency env (getCurrencyFromSymbol env s)"
    from response_keys [OF assms(1) s] consider
      "cachedQuotes env useCache items s \<noteq> []" | "s = DEFAULT_CURRENCY env @ ''USX''"
      | "s \<in> set (upstreamSymbols env requestTimeout (upstreamRequests run))"
      by blast
    then show "cachedQuotes env useCache items s \<noteq> [] \<or>
            s = DEFAULT_CURRENCY env @ ''USX'' \<or>
            (\<exists>request \<in> set (upstreamRequests run). \<exists>result.
               provider_getQuotes (request_provider request) requestTimeout
                 (symbolsChunk request) = Inr result \<and>
               s \<in> set (mergedSymbols env (map fst (Object_entries result))) \<and>
               (s \<in> set (symbolsChunk request) \<longrightarrow> \<not> isPremium (request_provider request)))"
    proof cases
      case 3
      then obtain request result where
        r: "request \<in> set (upstreamRequests run)"
        "provider_getQuotes (request_provider request) requestTimeout (symbolsChunk request) =
           Inr result"
        "s \<in> set (mergedSymbols env (map fst (Object_entries result)))"
        unfolding in_upstreamSymbols by blast
      have "s \<in> set (symbolsChunk request) \<longrightarrow> \<not> isPremium (request_provider request)"
        using kept [OF r(1) _ n] by blast
      with r show ?thesis by blast
    qed simp_all
  qed
  have C: "\<forall>item \<in> set (itemsToFetch env useCache items).
            isCurrency env (getCurrencyFromSymbol env (symbol item)) \<longrightarrow>
            (\<exists>dataProvider. getDataProvider env (dataSource item) = Inr dataProvider \<and>
               ((\<exists>request \<in> set (upstreamRequests run).
                   request_dataSource request = dataSource item \<and>
                   symbol item \<in> set (symbolsChunk request)) \<longleftrightarrow>
                \<not> isDerivedCurrency env (getCurrencyFromSymbol env (symbol item))))"
  proof (intro ballI impI)
    fix item assume i: "item \<in> set (itemsToFetch env useCache items)"
      and c: "isCurrency env (getCurrencyFromSymbol env (symbol item))"
    from requested_iff_kept [OF sent i] obtain dataProvider where
      p: "getDataProvider env (dataSource item) = Inr dataProvider"
      and k: "(\<exists>request \<in> set (upstreamRequests run).
                   request_dataSource request = dataSource item \<and>
                   symbol item \<in> set (symbolsChunk request)) \<longleftrightarrow>
              keepSymbol env dataProvider (Some u) (symbol item)"
      by blast
    have "keepSymbol env dataProvider (Some u) (symbol item) \<longleftrightarrow>
            \<not> isDerivedCurrency env (getCurrencyFromSymbol env (symbol item))"
      using c by (simp add: keepSymbol_def)
    with p k show "\<exists>dataProvider. getDataProvider env (dataSource item) = Inr dataProvider \<and>
               ((\<exists>request \<in> set (upstreamRequests run).
                   request_dataSource request = dataSource item \<and>
                   symbol item \<in> set (symbolsChunk request)) \<longleftrightarrow>
                \<not> isDerivedCurrency env (getCurrencyFromSymbol env (symbol item)))"
      by simp
  qed
  show ?thesis
    by (intro conjI A B C)
qed

theorem premium_gating_witness:
  "getQuotes_run demoEnv demoResolvedAt basicItems None True (Some basicUser) =
     Some (Inr basicRun) \<and>
   subscription_type basicUser = ''Basic'' \<and> ENABLE_FEATURE_SUBSCRIPTION demoEnv \<and>
   isPremium (request_provider (basicRequests ! 0)) \<and>
   symbolsChunk (basicRequests ! 0) = [''USDGBP''] \<and>
   isCurrency demoEnv (getCurrencyFromSymbol demoEnv ''USDGBP'') \<and>
   \<not> isDerivedCurrency demoEnv (getCurrencyFromSymbol demoEnv ''USDGBP'') \<and>
   item_of ''GHOSTFOLIO'' ''USDGBP'' \<in> set (itemsToFetch demoEnv True basicItems) \<and>
   ''AAPL'' \<in> fst ` set (responseOf basicRun) \<and>
   \<not> isCurrency demoEnv (getCurrencyFromSymbol demoEnv ''AAPL'') \<and>
   cachedQuotes demoEnv True basicItems ''AAPL'' = [] \<and>
   ''AAPL'' \<in> set (symbolsChunk (basicRequests ! 1)) \<and>
   \<not> isPremium (request_provider (basicRequests ! 1))"
proof -
  have b: "subscription_type basicUser = ''Basic''"
    by (simp add: basicUser_def)
  have f: "ENABLE_FEATURE_SUBSCRIPTION demoEnv"
    by (simp add: demoEnv_simps)
  note main = premium_gating [OF basic_run b f]
  have r0: "basicRequests ! 0 \<in> set (upstreamRequests basicRun)"
    by (simp add: basicRun_def basicRequests_def)
  have p0: "isPremium (request_provider (basicRequests ! 0))"
    by (simp add: basicRequests_def ghostfolio_simps)
  have s0: "symbolsChunk (basicRequests ! 0) = [''USDGBP'']"
    by (simp add: basicRequests_def)
  have "''USDGBP'' \<in> set (symbolsChunk (basicRequests ! 0))"
    by (simp add: s0)
  from conjunct1 [OF main, rule_format, OF r0 p0 this]
  have 1: "isCurrency demoEnv (getCurrencyFromSymbol demoEnv ''USDGBP'')" .
  have 2: "\<not> isDerivedCurrency demoEnv (getCurrencyFromSymbol demoEnv ''USDGBP'')"
    and 3: "item_of ''GHOSTFOLIO'' ''USDGBP'' \<in> set (itemsToFetch demoEnv True basicItems)"
    and 4: "''AAPL'' \<in> fst ` set (responseOf basicRun)"
    and 5: "\<not> isCurrency demoEnv (getCurrencyFromSymbol demoEnv ''AAPL'')"
    and 6: "cachedQuotes demoEnv True basicItems ''AAPL'' = []"
    and 7: "''AAPL'' \<in> set (symbolsChunk (basicRequests ! 1))"
    and 8: "\<not> isPremium (request_provider (basicRequests ! 1))"
    by (simp_all add: demoEnv_simps itemsToFetch_eq basicItems_def cachedQuote_def item_of_def
        basicRun_def cachedQuotes_Cons cachedQuotes_Nil basicRequests_def yahoo_simps)
  show ?thesis
    by (intro conjI basic_run b f p0 s0 1 2 3 4 5 6 7 8)
qed

text \<open>
  C6 as stated fails on the call for \<open>premiumItems\<close>: \<^verbatim>\<open>AAPL\<close> is requested for the premium
  data source and for a free one by a user with the subscription type \<^verbatim>\<open>Basic\<close>; it is not
  in the cache and the response holds its quote, fetched from the free provider.
\<close>

theorem premium_gating_counterexample:
  "getQuotes_run demoEnv demoResolvedAt premiumItems None True (Some basicUser) =
     Some (Inr premiumRun) \<and>
   subscription_type basicUser = ''Basic'' \<and> ENABLE_FEATURE_SUBSCRIPTION demoEnv \<and>
   item_of ''GHOSTFOLIO'' ''AAPL'' \<in> set premiumItems \<and>
   getDataProvider demoEnv ''GHOSTFOLIO'' = Inr ghostfolio \<and> isPremium ghostfolio \<and>
   \<not> isCurrency demoEnv (getCurrencyFromSymbol demoEnv ''AAPL'') \<and>
   cachedQuotes demoEnv True premiumItems ''AAPL'' = [] \<and>
   map_of (responseOf premiumRun) ''AAPL'' = Some quoteAAPL"
proof (intro conjI)
  show "getQuotes_run demoEnv demoResolvedAt premiumItems None True (Some basicUser) =
     Some (Inr premiumRun)"
    by (rule premium_run)
  show "getDataProvider demoEnv ''GHOSTFOLIO'' = Inr ghostfolio"
    by (rule demo_providers)
qed (simp_all add: demoEnv_simps premiumItems_def cachedQuote_def item_of_def premiumRun_def
      cachedQuotes_Cons cachedQuotes_Nil ghostfolio_simps basicUser_def)

end
